theory Spec2Isabelle
  imports Main "HOL-Library.Sublist"
begin

section \<open>Python text and paths\<close>

text \<open>
  Python \<^verbatim>\<open>str\<close> values are modelled as \<^typ>\<open>string\<close>; a character stands for a
  code point below 256. On these code points \<^verbatim>\<open>str.isspace\<close> (which \<^verbatim>\<open>lstrip()\<close>,
  \<^verbatim>\<open>strip()\<close> and the regular expression class \<^verbatim>\<open>\s\<close> all use) holds for
  9 to 13, 28 to 32, 133 and 160.
\<close>

definition isspace :: "char \<Rightarrow> bool" where
  "isspace c = (let n = (of_char c :: nat)
                in (9 \<le> n \<and> n \<le> 13) \<or> (28 \<le> n \<and> n \<le> 32) \<or> n = 133 \<or> n = 160)"

definition lstrip :: "string \<Rightarrow> string" where
  "lstrip s = dropWhile isspace s"

definition rstrip :: "string \<Rightarrow> string" where
  "rstrip s = rev (dropWhile isspace (rev s))"

definition strip :: "string \<Rightarrow> string" where
  "strip s = rstrip (lstrip s)"

text \<open>The substring test \<^verbatim>\<open>needle in hay\<close>.\<close>

fun str_in :: "string \<Rightarrow> string \<Rightarrow> bool" where
  "str_in needle [] = (needle = [])"
| "str_in needle (c # cs) = (prefix needle (c # cs) \<or> str_in needle cs)"

text \<open>\<^verbatim>\<open>hostip.replace('.', '_')\<close>.\<close>

definition replace_dots :: "string \<Rightarrow> string" where
  "replace_dots s = map (\<lambda>c. if c = CHR ''.'' then CHR ''_'' else c) s"

text \<open>
  \<^verbatim>\<open>os.path.join\<close> on POSIX: a component that starts with a slash discards what came
  before it; otherwise it is appended, after a slash unless the path so far is empty or
  already ends with one.
\<close>

definition path_join2 :: "string \<Rightarrow> string \<Rightarrow> string" where
  "path_join2 a b =
     (if prefix ''/'' b then b
      else if a = [] \<or> last a = CHR ''/'' then a @ b
      else a @ ''/'' @ b)"

definition path_join :: "string \<Rightarrow> string \<Rightarrow> string \<Rightarrow> string" where
  "path_join a b c = path_join2 (path_join2 a b) c"

text \<open>
  \<^verbatim>\<open>os.path.dirname\<close> on POSIX: the part up to and including the last slash, with the
  trailing slashes removed unless that part consists of slashes only.
\<close>

definition dirname :: "string \<Rightarrow> string" where
  "dirname p =
     (let head = rev (dropWhile (\<lambda>c. c \<noteq> CHR ''/'') (rev p))
      in if head \<noteq> [] \<and> \<not> list_all (\<lambda>c. c = CHR ''/'') head
         then rev (dropWhile (\<lambda>c. c = CHR ''/'') (rev head))
         else head)"

section \<open>The output sanitizer\<close>

text \<open>
  A registry entry, and the \<^verbatim>\<open>commands\<close> argument of the sanitizer, is either one
  command string or a list of command strings.
\<close>

datatype command = Single string | Multi "string list"

text \<open>
  The pattern handed to \<^verbatim>\<open>re.search\<close> is an alternation of escaped, hence literal,
  command strings; it is represented by the list of its alternatives. Joining an empty
  list gives the empty pattern, whose single alternative is the empty string.
\<close>

fun alternatives :: "command \<Rightarrow> string list" where
  "alternatives (Multi cmds) = (if cmds = [] then [[]] else cmds)"
| "alternatives (Single cmd) = [cmd]"

text \<open>
  \<^verbatim>\<open>re.search\<close> tries the start positions from left to right, the last one being the
  end of the string, and at each position the alternatives in the order written. The
  result is \<^verbatim>\<open>match.end()\<close>.
\<close>

fun re_search :: "string list \<Rightarrow> string \<Rightarrow> nat \<Rightarrow> nat option" where
  "re_search alts [] pos =
     (case find (\<lambda>a. prefix a []) alts of
        None \<Rightarrow> None
      | Some a \<Rightarrow> Some (pos + length a))"
| "re_search alts (c # cs) pos =
     (case find (\<lambda>a. prefix a (c # cs)) alts of
        None \<Rightarrow> re_search alts cs (Suc pos)
      | Some a \<Rightarrow> Some (pos + length a))"

definition clean_config_output :: "string \<Rightarrow> command \<Rightarrow> string" where
  "clean_config_output config commands =
     (case re_search (alternatives commands) config 0 of
        Some e \<Rightarrow> lstrip (drop e config)
      | None \<Rightarrow> config)"

text \<open>
  The specification of the sanitizer, in its own words: the command strings of a
  command specification, an occurrence of a command string at a position, and the
  relation between the captured text, the command strings and the sanitized text.
\<close>

fun command_strings :: "command \<Rightarrow> string list" where
  "command_strings (Single cmd) = [cmd]"
| "command_strings (Multi cmds) = cmds"

definition occurs_at :: "string \<Rightarrow> string \<Rightarrow> nat \<Rightarrow> bool" where
  "occurs_at c config i = (i \<le> length config \<and> prefix c (drop i config))"

definition sanitizer_spec :: "string \<Rightarrow> string list \<Rightarrow> string \<Rightarrow> bool" where
  "sanitizer_spec config cmds r =
     (if \<exists>c \<in> set cmds. \<exists>i \<in> {..length config}. occurs_at c config i
      then \<exists>c \<in> set cmds. \<exists>i \<in> {..length config}.
             occurs_at c config i
           \<and> (\<forall>c' \<in> set cmds. \<forall>j \<in> {..<i}. \<not> occurs_at c' config j)
           \<and> r = lstrip (drop (i + length c) config)
      else r = config)"

section \<open>Exceptions, effects and the outside world\<close>

text \<open>
  An exception is a value: \<open>KeyError\<close> is what a failed dictionary lookup raises,
  \<open>Error\<close> stands for every other exception (of the transport, the HTTP client or the
  file system) with its message.
\<close>

datatype exn = KeyError | Error string

type_synonym bytes = "char list"

datatype payload = Text string | Bytes bytes

text \<open>One constructor for each logging call of the program, with the values it formats.\<close>

datatype log_msg =
    ApiNoKey string
  | ApiSuccess string string
  | ApiFailed string int string
  | ApiException string exn
  | ConnectFailed string exn
  | SendingCommand string
  | CommandFailed string exn
  | UsingCommand string command
  | UnsupportedPlatform string
  | ExecutionFailed exn
  | SaveSuccess string string
  | SaveFailed string exn
  | Summary int int

text \<open>
  What a device task does to the outside, in order: log records, commands executed
  over the session (\<open>Exec\<close>), text written to an interactive shell (\<open>Send\<close>), HTTP
  requests (URL and authorization header), and the file system calls that succeeded.
  Sleeping has no effect on any value and is left out.
\<close>

datatype event =
    Log log_msg
  | Exec string
  | Send string
  | HttpGet string string
  | MakeDirs string
  | Create string
  | Write string payload

fun is_send :: "event \<Rightarrow> bool" where
  "is_send (Send s) = True"
| "is_send ev = False"

fun is_file_event :: "event \<Rightarrow> bool" where
  "is_file_event (MakeDirs p) = True"
| "is_file_event (Create p) = True"
| "is_file_event (Write p d) = True"
| "is_file_event ev = False"

text \<open>
  The output stream of an executed command is the list of what its successive reads
  return: a chunk of bytes or an exception (the read timeout). An empty chunk, or the
  end of the list, is the end of the stream.
\<close>

datatype rd = Chunk bytes | ReadError exn

text \<open>
  An interactive shell is what its polls return, numbered from 0: nothing to read yet
  (\<^verbatim>\<open>recv_ready()\<close> is false), the bytes that \<^verbatim>\<open>recv\<close> delivers, or the exception
  that \<^verbatim>\<open>recv\<close> raises. The polls are given in advance, whatever is written to the
  shell. Writing to the shell and closing are taken not to raise.
\<close>

datatype poll = NotReady | Data bytes | RecvError exn

record client =
  exec_command :: "string \<Rightarrow> exn + rd list"
  invoke_shell :: "exn + (nat \<Rightarrow> poll)"

record response =
  status_code :: int
  content :: bytes
  body_text :: string

text \<open>
  The outside world of one run: the decoder \<^verbatim>\<open>bytes.decode('utf-8', 'ignore')\<close>, the
  formatted time stamp, the SSH connection attempt (host, user name, password), the
  HTTP GET (URL, authorization header), and the three file system calls, each of which
  either succeeds or raises.
\<close>

record world =
  decode :: "bytes \<Rightarrow> string"
  now :: string
  ssh_connect :: "string \<Rightarrow> string \<Rightarrow> string \<Rightarrow> exn + client"
  http_get :: "string \<Rightarrow> string \<Rightarrow> exn + response"
  makedirs :: "string \<Rightarrow> exn option"
  open_file :: "string \<Rightarrow> exn option"
  write_file :: "string \<Rightarrow> payload \<Rightarrow> exn option"

section \<open>The inventory and the command registry\<close>

text \<open>
  A device entry of the inventory, with the four keys that the program reads by
  subscript. The two optional keys are read with \<^verbatim>\<open>get\<close>; the port is kept as
  the text that the URL shows.
\<close>

record device =
  name :: string
  hostip :: string
  platform :: string
  groups :: string
  api_key :: "string option"
  api_port :: "string option"

record credentials =
  username :: string
  password :: string
  default_api_key :: "string option"

record inventory =
  creds :: credentials
  devices :: "device list"

definition backup_commands :: "string \<Rightarrow> command option" where
  "backup_commands = map_of
     [(''juniper_qfx'', Single ''show configuration | display set | no-more''),
      (''juniper_srx'', Single ''show configuration | display set | no-more''),
      (''cisco_ios'', Single ''show running-config''),
      (''cisco_asa'', Multi [''terminal pager 0'', ''show running-config'']),
      (''cisco_wlc'', Multi [''show running-config'']),
      (''huawei'', Single ''display current-configuration''),
      (''h3c'', Multi [''screen-length disable'', ''display current-configuration'']),
      (''h3c_core'', Multi [''screen-length disable'', ''display current-configuration'']),
      (''fortinet'', Single ''show''),
      (''hillstone'', Single ''show running-config'')]"

text \<open>Truth value of an optional string: neither \<^verbatim>\<open>None\<close> nor empty.\<close>

fun truthy :: "string option \<Rightarrow> bool" where
  "truthy None = False"
| "truthy (Some s) = (s \<noteq> [])"

text \<open>Truth value of a command specification: a non-empty string or a non-empty list.\<close>

fun command_truthy :: "command option \<Rightarrow> bool" where
  "command_truthy None = False"
| "command_truthy (Some (Single s)) = (s \<noteq> [])"
| "command_truthy (Some (Multi cs)) = (cs \<noteq> [])"

section \<open>Executing commands\<close>

text \<open>
  The inner loop of \<^verbatim>\<open>execute_commands\<close>: read chunks until one is empty, appending
  the decoded text of each to the output.
\<close>

fun read_chunks :: "(bytes \<Rightarrow> string) \<Rightarrow> rd list \<Rightarrow> string \<Rightarrow> exn + string" where
  "read_chunks dec [] output = Inr output"
| "read_chunks dec (ReadError e # rest) output = Inl e"
| "read_chunks dec (Chunk b # rest) output =
     (if b = [] then Inr output else read_chunks dec rest (output @ dec b))"

text \<open>
  The loop over the commands, with the output and the effects so far. An exception
  while a command is executed or read ends the loop with the empty string; after the
  last command the output is returned stripped.
\<close>

fun exec_loop ::
  "(bytes \<Rightarrow> string) \<Rightarrow> client \<Rightarrow> string list \<Rightarrow> string \<Rightarrow> event list
     \<Rightarrow> string \<times> event list" where
  "exec_loop dec cl [] output evs = (strip output, evs)"
| "exec_loop dec cl (cmd # rest) output evs =
     (let evs1 = evs @ [Log (SendingCommand cmd), Exec (cmd @ ''\<newline>'')]
      in case exec_command cl (cmd @ ''\<newline>'') of
           Inl e \<Rightarrow> ('''', evs1 @ [Log (CommandFailed cmd e)])
         | Inr out \<Rightarrow>
             (case read_chunks dec out output of
                Inl e \<Rightarrow> ('''', evs1 @ [Log (CommandFailed cmd e)])
              | Inr output' \<Rightarrow> exec_loop dec cl rest output' evs1))"

definition execute_commands ::
  "(bytes \<Rightarrow> string) \<Rightarrow> client \<Rightarrow> string list \<Rightarrow> string \<times> event list" where
  "execute_commands dec cl commands = exec_loop dec cl commands '''' []"

text \<open>\<^verbatim>\<open>stdout.read()\<close>: all bytes up to the end of the stream.\<close>

fun read_all :: "rd list \<Rightarrow> bytes \<Rightarrow> exn + bytes" where
  "read_all [] acc = Inr acc"
| "read_all (ReadError e # rest) acc = Inl e"
| "read_all (Chunk b # rest) acc = (if b = [] then Inr acc else read_all rest (acc @ b))"

text \<open>
  The text captured for one command of a command list: what the reads of its output
  stream decode to, when neither the execution nor a read raises.
\<close>

definition captured_text :: "(bytes \<Rightarrow> string) \<Rightarrow> client \<Rightarrow> string \<Rightarrow> string option" where
  "captured_text dec cl cmd =
     (case exec_command cl (cmd @ ''\<newline>'') of
        Inl e \<Rightarrow> None
      | Inr out \<Rightarrow> (case read_chunks dec out '''' of Inl e \<Rightarrow> None | Inr t \<Rightarrow> Some t))"

section \<open>The interactive reading loops\<close>

text \<open>
  Each loop polls the shell for ever unless it finds what it waits for or \<^verbatim>\<open>recv\<close>
  raises, so its result is optional: \<open>None\<close> is a loop that never returns. The
  argument \<open>k\<close> is the number of the next poll.
\<close>

text \<open>
  The prompt test of the H3C loop, \<^verbatim>\<open>re.search(r'<.*?>\s*$', data)\<close>: somewhere a
  \<^verbatim>\<open><\<close>, then characters other than a line feed, then a \<^verbatim>\<open>>\<close> after which only
  whitespace follows.
\<close>

fun gt_tail :: "string \<Rightarrow> bool" where
  "gt_tail [] = False"
| "gt_tail (c # cs) =
     ((c = CHR ''>'' \<and> list_all isspace cs) \<or> (c \<noteq> CHR 0x0A \<and> gt_tail cs))"

fun h3c_prompt :: "string \<Rightarrow> bool" where
  "h3c_prompt [] = False"
| "h3c_prompt (c # cs) = ((c = CHR ''<'' \<and> gt_tail cs) \<or> h3c_prompt cs)"

partial_function (option) h3c_reading ::
  "(bytes \<Rightarrow> string) \<Rightarrow> (nat \<Rightarrow> poll) \<Rightarrow> nat \<Rightarrow> string \<Rightarrow> (exn + string) option" where
  "h3c_reading dec ch k output =
     (case ch k of
        NotReady \<Rightarrow> h3c_reading dec ch (Suc k) output
      | RecvError e \<Rightarrow> Some (Inl e)
      | Data b \<Rightarrow>
          (let data = dec b; output' = output @ data
           in if h3c_prompt data then Some (Inr output')
              else h3c_reading dec ch (Suc k) output'))"

definition more_flag :: string where
  "more_flag = ''Press Enter to continue''"

definition end_flag :: string where
  "end_flag = ''(Cisco Controller) >?''"

definition enter_flag :: string where
  "enter_flag = ''Press Enter to continue''"

partial_function (option) wlc_reading ::
  "(bytes \<Rightarrow> string) \<Rightarrow> (nat \<Rightarrow> poll) \<Rightarrow> nat \<Rightarrow> string \<Rightarrow> event list
     \<Rightarrow> ((exn + string) \<times> event list) option" where
  "wlc_reading dec ch k output evs =
     (case ch k of
        NotReady \<Rightarrow> wlc_reading dec ch (Suc k) output evs
      | RecvError e \<Rightarrow> Some (Inl e, evs)
      | Data b \<Rightarrow>
          (let data = dec b;
               output' = output @ data;
               evs1 = (if str_in enter_flag data then evs @ [Send ''\<newline>''] else evs);
               evs2 = (if str_in more_flag data then evs1 @ [Send '' ''] else evs1)
           in if str_in end_flag data \<and> \<not> str_in more_flag data
              then Some (Inr output', evs2)
              else wlc_reading dec ch (Suc k) output' evs2))"

text \<open>
  The two loops of \<^verbatim>\<open>wlc_shell_login\<close> differ in the prompt they wait for; each
  returns the number of the next poll once the prompt is in the buffer.
\<close>

partial_function (option) await_prompt ::
  "(bytes \<Rightarrow> string) \<Rightarrow> string \<Rightarrow> (nat \<Rightarrow> poll) \<Rightarrow> nat \<Rightarrow> string \<Rightarrow> (exn + nat) option" where
  "await_prompt dec flag ch k buff =
     (case ch k of
        NotReady \<Rightarrow> await_prompt dec flag ch (Suc k) buff
      | RecvError e \<Rightarrow> Some (Inl e)
      | Data b \<Rightarrow>
          (let buff' = buff @ dec b
           in if str_in flag buff' then Some (Inr (Suc k))
              else await_prompt dec flag ch (Suc k) buff'))"

definition wlc_shell_login ::
  "(bytes \<Rightarrow> string) \<Rightarrow> credentials \<Rightarrow> (nat \<Rightarrow> poll) \<Rightarrow> nat
     \<Rightarrow> ((exn + nat) \<times> event list) option" where
  "wlc_shell_login dec cr ch k =
     (case await_prompt dec ''User:'' ch k '''' of
        None \<Rightarrow> None
      | Some (Inl e) \<Rightarrow> Some (Inl e, [])
      | Some (Inr k1) \<Rightarrow>
          (case await_prompt dec ''Password:'' ch k1 '''' of
             None \<Rightarrow> None
           | Some (Inl e) \<Rightarrow> Some (Inl e, [Send (username cr @ ''\<newline>'')])
           | Some (Inr k2) \<Rightarrow>
               Some (Inr k2, [Send (username cr @ ''\<newline>''),
                              Send (password cr @ ''\<newline>'')])))"

text \<open>The ASA loop reads while the shell has data and stops at the first empty poll.\<close>

partial_function (option) asa_reading ::
  "(bytes \<Rightarrow> string) \<Rightarrow> (nat \<Rightarrow> poll) \<Rightarrow> nat \<Rightarrow> string \<Rightarrow> (exn + string) option" where
  "asa_reading dec ch k output =
     (case ch k of
        NotReady \<Rightarrow> Some (Inr output)
      | RecvError e \<Rightarrow> Some (Inl e)
      | Data b \<Rightarrow> asa_reading dec ch (Suc k) (output @ dec b))"

section \<open>One device task\<close>

definition connect_device ::
  "world \<Rightarrow> credentials \<Rightarrow> string \<Rightarrow> client option \<times> event list" where
  "connect_device w cr host =
     (case ssh_connect w host (username cr) (password cr) of
        Inr cl \<Rightarrow> (Some cl, [])
      | Inl e \<Rightarrow> (None, [Log (ConnectFailed host e)]))"

text \<open>
  The body of the \<^verbatim>\<open>try\<close> statement of \<^verbatim>\<open>get_backup\<close>: the captured text or the
  exception raised, with the effects up to there. The ASA branch iterates over the
  registry entry, which for a single string would be its characters. A registry entry
  is a string or a list by its type, so the \<^verbatim>\<open>TypeError\<close> branch has no counterpart.
\<close>

definition get_backup_body ::
  "(bytes \<Rightarrow> string) \<Rightarrow> credentials \<Rightarrow> client \<Rightarrow> string
     \<Rightarrow> ((exn + string) \<times> event list) option" where
  "get_backup_body dec cr cl pf =
     (case backup_commands pf of
        None \<Rightarrow> Some (Inl KeyError, [])
      | Some command \<Rightarrow>
          (let evs0 = [Log (UsingCommand pf command)]
           in if pf \<in> set [''h3c'', ''h3c_core''] then
                (case invoke_shell cl of
                   Inl e \<Rightarrow> Some (Inl e, evs0)
                 | Inr ch \<Rightarrow>
                     map_option
                       (\<lambda>r. (r, evs0 @ [Send ''screen-length disable\<newline>'',
                                         Send ''display current-configuration\<newline>'']))
                       (h3c_reading dec ch 0 ''''))
              else if pf = ''cisco_wlc'' then
                (case invoke_shell cl of
                   Inl e \<Rightarrow> Some (Inl e, evs0)
                 | Inr ch \<Rightarrow>
                     (case wlc_shell_login dec cr ch 0 of
                        None \<Rightarrow> None
                      | Some (Inl e, sent) \<Rightarrow> Some (Inl e, evs0 @ sent)
                      | Some (Inr k, sent) \<Rightarrow>
                          wlc_reading dec ch k ''''
                            (evs0 @ sent @ [Send ''config paging disable\<newline>'',
                                            Send ''show run-config\<newline>''])))
              else if pf = ''cisco_asa'' then
                (case invoke_shell cl of
                   Inl e \<Rightarrow> Some (Inl e, evs0)
                 | Inr ch \<Rightarrow>
                     map_option
                       (\<lambda>r. (r, evs0 @ map (\<lambda>cmd. Send (cmd @ ''\<newline>''))
                                          (case command of
                                             Multi cmds \<Rightarrow> cmds
                                           | Single s \<Rightarrow> map (\<lambda>c. [c]) s)))
                       (asa_reading dec ch 0 ''''))
              else
                (case command of
                   Multi cmds \<Rightarrow>
                     (case execute_commands dec cl cmds of
                        (config, evs) \<Rightarrow> Some (Inr config, evs0 @ evs))
                 | Single c \<Rightarrow>
                     (case exec_command cl c of
                        Inl e \<Rightarrow> Some (Inl e, evs0 @ [Exec c])
                      | Inr out \<Rightarrow>
                          (case read_all out [] of
                             Inl e \<Rightarrow> Some (Inl e, evs0 @ [Exec c])
                           | Inr b \<Rightarrow> Some (Inr (dec b), evs0 @ [Exec c]))))))"

text \<open>The two handlers: either exception becomes the result \<^verbatim>\<open>None\<close>.\<close>

definition get_backup ::
  "(bytes \<Rightarrow> string) \<Rightarrow> credentials \<Rightarrow> client \<Rightarrow> string
     \<Rightarrow> (string option \<times> event list) option" where
  "get_backup dec cr cl pf =
     map_option
       (\<lambda>(r, evs). case r of
            Inr config \<Rightarrow> (Some config, evs)
          | Inl KeyError \<Rightarrow> (None, evs @ [Log (UnsupportedPlatform pf)])
          | Inl (Error m) \<Rightarrow> (None, evs @ [Log (ExecutionFailed (Error m))]))
       (get_backup_body dec cr cl pf)"

text \<open>
  \<^verbatim>\<open>save_config\<close>. Creating the directory is outside the \<^verbatim>\<open>try\<close> statement, so its
  exception is the result; opening and writing are inside.
\<close>

definition save_config ::
  "world \<Rightarrow> string option \<Rightarrow> string \<Rightarrow> string \<Rightarrow> string \<Rightarrow> command option
     \<Rightarrow> (exn + bool) \<times> event list" where
  "save_config w config host nm grp commands =
     (case config of
        None \<Rightarrow> (Inr False, [])
      | Some raw \<Rightarrow>
          if raw = [] then (Inr False, [])
          else
            (let cleaned = (case commands of
                              None \<Rightarrow> raw
                            | Some cmds \<Rightarrow>
                                if command_truthy commands then clean_config_output raw cmds
                                else raw);
                 filename = nm @ ''_'' @ replace_dots host @ ''_'' @ now w @ ''.cfg'';
                 filepath = path_join ''backup'' grp filename
             in case makedirs w (dirname filepath) of
                  Some e \<Rightarrow> (Inl e, [])
                | None \<Rightarrow>
                    (case open_file w filepath of
                       Some e \<Rightarrow> (Inr False, [MakeDirs (dirname filepath),
                                              Log (SaveFailed host e)])
                     | None \<Rightarrow>
                         (case write_file w filepath (Text cleaned) of
                            Some e \<Rightarrow> (Inr False, [MakeDirs (dirname filepath),
                                                   Create filepath,
                                                   Log (SaveFailed host e)])
                          | None \<Rightarrow> (Inr True, [MakeDirs (dirname filepath),
                                                Create filepath,
                                                Write filepath (Text cleaned),
                                                Log (SaveSuccess host filepath)])))))"

text \<open>\<^verbatim>\<open>a or b\<close> on optional strings.\<close>

definition py_or :: "string option \<Rightarrow> string option \<Rightarrow> string option" where
  "py_or a b = (if truthy a then a else b)"

definition fortinet_api_backup :: "world \<Rightarrow> credentials \<Rightarrow> device \<Rightarrow> bool \<times> event list" where
  "fortinet_api_backup w cr d =
     (let key = py_or (api_key d) (default_api_key cr);
          port = (case api_port d of None \<Rightarrow> ''443'' | Some p \<Rightarrow> p)
      in case key of
           None \<Rightarrow> (False, [Log (ApiNoKey (hostip d))])
         | Some k \<Rightarrow>
             if k = [] then (False, [Log (ApiNoKey (hostip d))])
             else
               (let url = ''https://'' @ hostip d @ '':'' @ port
                            @ ''/api/v2/monitor/system/config/backup?scope=global'';
                    auth = ''Bearer '' @ k;
                    filename = name d @ ''_'' @ replace_dots (hostip d) @ ''_'' @ now w
                                 @ ''.conf'';
                    filepath = path_join ''backup'' (groups d) filename
                in case http_get w url auth of
                     Inl e \<Rightarrow> (False, [HttpGet url auth, Log (ApiException (hostip d) e)])
                   | Inr resp \<Rightarrow>
                       if status_code resp = 200 then
                         (case makedirs w (dirname filepath) of
                            Some e \<Rightarrow> (False, [HttpGet url auth,
                                               Log (ApiException (hostip d) e)])
                          | None \<Rightarrow>
                              (case open_file w filepath of
                                 Some e \<Rightarrow> (False, [HttpGet url auth,
                                                    MakeDirs (dirname filepath),
                                                    Log (ApiException (hostip d) e)])
                               | None \<Rightarrow>
                                   (case write_file w filepath (Bytes (content resp)) of
                                      Some e \<Rightarrow> (False, [HttpGet url auth,
                                                         MakeDirs (dirname filepath),
                                                         Create filepath,
                                                         Log (ApiException (hostip d) e)])
                                    | None \<Rightarrow>
                                        (True, [HttpGet url auth,
                                                MakeDirs (dirname filepath),
                                                Create filepath,
                                                Write filepath (Bytes (content resp)),
                                                Log (ApiSuccess (hostip d) filepath)]))))
                       else (False, [HttpGet url auth,
                                     Log (ApiFailed (hostip d) (status_code resp)
                                            (body_text resp))])))"

text \<open>
  \<^verbatim>\<open>backup_device\<close> has no handler of its own: the result is a boolean, or the exception
  that leaves the task, or nothing at all when the capture never returns. Closing the
  connection is taken not to raise.
\<close>

definition backup_device ::
  "world \<Rightarrow> inventory \<Rightarrow> device \<Rightarrow> ((exn + bool) \<times> event list) option" where
  "backup_device w cfg d =
     (if platform d = ''fortinet'' then
        (case fortinet_api_backup w (creds cfg) d of (ok, evs) \<Rightarrow> Some (Inr ok, evs))
      else
        (case connect_device w (creds cfg) (hostip d) of
           (None, evs) \<Rightarrow> Some (Inr False, evs)
         | (Some cl, evs) \<Rightarrow>
             (case get_backup (decode w) (creds cfg) cl (platform d) of
                None \<Rightarrow> None
              | Some (config, evs2) \<Rightarrow>
                  if \<not> truthy config then Some (Inr False, evs @ evs2)
                  else
                    (case backup_commands (platform d) of
                       None \<Rightarrow> Some (Inl KeyError, evs @ evs2)
                     | Some cmds \<Rightarrow>
                         (case save_config w config (hostip d) (name d) (groups d) (Some cmds) of
                            (r, evs3) \<Rightarrow> Some (r, evs @ evs2 @ evs3))))))"

section \<open>The batch\<close>

text \<open>
  The tasks share nothing but the read-only inventory and registry, so the result of
  each is a function of its device and the outside world, whatever the schedule of the
  worker pool. Leaving the pool waits for every task: a task that never returns keeps
  \<^verbatim>\<open>run_backup\<close> from returning.
\<close>

fun await_all :: "'a option list \<Rightarrow> 'a list option" where
  "await_all [] = Some []"
| "await_all (None # fs) = None"
| "await_all (Some r # fs) = (case await_all fs of None \<Rightarrow> None | Some rs \<Rightarrow> Some (r # rs))"

text \<open>
  \<^verbatim>\<open>sum(f.result() for f in futures if f.result())\<close>: the results are taken in the order
  of the futures, a result that is an exception is raised again, and a true result adds
  its integer value.
\<close>

fun py_sum :: "(exn + bool) list \<Rightarrow> int \<Rightarrow> exn + int" where
  "py_sum [] acc = Inr acc"
| "py_sum (Inl e # rs) acc = Inl e"
| "py_sum (Inr b # rs) acc = (if b then py_sum rs (acc + of_bool b) else py_sum rs acc)"

text \<open>
  The result of a run that returns is the exception that leaves it, or the pair of
  numbers of the summary line, with the effects of every task.
\<close>

definition run_backup ::
  "world \<Rightarrow> inventory \<Rightarrow> ((exn + int \<times> int) \<times> event list list) option" where
  "run_backup w cfg =
     (case await_all (map (backup_device w cfg) (devices cfg)) of
        None \<Rightarrow> None
      | Some finished \<Rightarrow>
          (case py_sum (map fst finished) 0 of
             Inl e \<Rightarrow> Some (Inl e, map snd finished)
           | Inr success \<Rightarrow>
               (let total = int (length finished)
                in Some (Inr (success, total),
                         map snd finished @ [[Log (Summary success total)]]))))"

definition summary :: "world \<Rightarrow> inventory \<Rightarrow> (exn + int \<times> int) option" where
  "summary w cfg = map_option fst (run_backup w cfg)"

section \<open>Example devices and worlds\<close>

definition silent_shell :: "nat \<Rightarrow> poll" where
  "silent_shell k = NotReady"

definition paging_shell :: "nat \<Rightarrow> poll" where
  "paging_shell k =
     (if k = 0 then Data ''(Cisco Controller) >?Press Enter to continue''
      else if k = 1 then Data ''(Cisco Controller) >?''
      else NotReady)"

definition example_stream :: "string \<Rightarrow> exn + rd list" where
  "example_stream cmd = Inr [Chunk ''show running-config\<newline>hostname R1\<newline>'']"

definition failing_stream :: "string \<Rightarrow> exn + rd list" where
  "failing_stream cmd = Inr [Chunk ''hostname'', ReadError (Error ''timed out'')]"

definition example_client :: client where
  "example_client = \<lparr>exec_command = example_stream, invoke_shell = Inr silent_shell\<rparr>"

definition failing_client :: client where
  "failing_client = \<lparr>exec_command = failing_stream, invoke_shell = Inr silent_shell\<rparr>"

definition connect_ok :: "string \<Rightarrow> string \<Rightarrow> string \<Rightarrow> exn + client" where
  "connect_ok host user pw = Inr example_client"

definition connect_failing_client :: "string \<Rightarrow> string \<Rightarrow> string \<Rightarrow> exn + client" where
  "connect_failing_client host user pw = Inr failing_client"

definition connect_refused :: "string \<Rightarrow> string \<Rightarrow> string \<Rightarrow> exn + client" where
  "connect_refused host user pw = Inl (Error ''connection refused'')"

definition get_ok :: "string \<Rightarrow> string \<Rightarrow> exn + response" where
  "get_ok url auth =
     Inr \<lparr>status_code = 200, content = ''config-bytes'', body_text = ''config-bytes''\<rparr>"

definition get_forbidden :: "string \<Rightarrow> string \<Rightarrow> exn + response" where
  "get_forbidden url auth = Inr \<lparr>status_code = 403, content = ''no'', body_text = ''no''\<rparr>"

definition get_unreachable :: "string \<Rightarrow> string \<Rightarrow> exn + response" where
  "get_unreachable url auth = Inl (Error ''unreachable'')"

definition fs_ok :: "string \<Rightarrow> exn option" where
  "fs_ok p = None"

definition fs_denied :: "string \<Rightarrow> exn option" where
  "fs_denied p = Some (Error ''permission denied'')"

definition write_ok :: "string \<Rightarrow> payload \<Rightarrow> exn option" where
  "write_ok p d = None"

definition decode_ascii :: "bytes \<Rightarrow> string" where
  "decode_ascii b = b"

definition example_world :: world where
  "example_world =
     \<lparr>decode = decode_ascii, now = ''20260101_0000'', ssh_connect = connect_ok,
      http_get = get_ok, makedirs = fs_ok, open_file = fs_ok, write_file = write_ok\<rparr>"

definition example_creds :: credentials where
  "example_creds = \<lparr>username = ''admin'', password = ''secret'', default_api_key = None\<rparr>"

definition router :: device where
  "router = \<lparr>name = ''R1'', hostip = ''10.0.0.1'', platform = ''cisco_ios'',
             groups = ''core'', api_key = None, api_port = None\<rparr>"

definition h3c_switch :: device where
  "h3c_switch = \<lparr>name = ''S1'', hostip = ''10.0.0.2'', platform = ''h3c'',
                 groups = ''core'', api_key = None, api_port = None\<rparr>"

definition firewall :: device where
  "firewall = \<lparr>name = ''F1'', hostip = ''10.0.0.3'', platform = ''fortinet'',
               groups = ''edge'', api_key = Some ''k'', api_port = None\<rparr>"

definition unknown_device :: device where
  "unknown_device = \<lparr>name = ''X1'', hostip = ''10.0.0.4'', platform = ''mikrotik'',
                     groups = ''edge'', api_key = None, api_port = None\<rparr>"

section \<open>Notions for the reading loops\<close>

text \<open>
  Notions used to state what the loops do: the text that a poll contributes, a poll
  that leaves the H3C loop, or the WLC loop, reading, and a WLC capture \<open>t\<close> that was
  completed by the chunk of some poll \<open>n\<close>, which holds the end flag and not the
  paging flag and is the last chunk of the capture.
\<close>

definition chunk_text :: "(bytes \<Rightarrow> string) \<Rightarrow> poll \<Rightarrow> string" where
  "chunk_text dec p = (case p of Data b \<Rightarrow> dec b | NotReady \<Rightarrow> [] | RecvError e \<Rightarrow> [])"

definition h3c_pending :: "(bytes \<Rightarrow> string) \<Rightarrow> poll \<Rightarrow> bool" where
  "h3c_pending dec p =
     (case p of NotReady \<Rightarrow> True | Data b \<Rightarrow> \<not> h3c_prompt (dec b) | RecvError e \<Rightarrow> False)"

definition wlc_pending :: "(bytes \<Rightarrow> string) \<Rightarrow> poll \<Rightarrow> bool" where
  "wlc_pending dec p =
     (case p of
        NotReady \<Rightarrow> True
      | Data b \<Rightarrow> \<not> (str_in end_flag (dec b) \<and> \<not> str_in more_flag (dec b))
      | RecvError e \<Rightarrow> False)"

definition completes_at ::
  "(bytes \<Rightarrow> string) \<Rightarrow> (nat \<Rightarrow> poll) \<Rightarrow> nat \<Rightarrow> string \<Rightarrow> string \<Rightarrow> bool" where
  "completes_at dec ch k out t =
     (\<exists>n \<ge> k. \<exists>b. ch n = Data b \<and> str_in end_flag (dec b) \<and> \<not> str_in more_flag (dec b)
        \<and> t = out @ concat (map (\<lambda>j. chunk_text dec (ch j)) [k..<Suc n]))"

section \<open>Notions for the default path\<close>

text \<open>
  The effects of a command list that runs to its end, and the platforms that
  \<^verbatim>\<open>get_backup\<close> serves over an interactive shell instead of the default path.
\<close>

definition exec_trace :: "string list \<Rightarrow> event list" where
  "exec_trace cmds = concat (map (\<lambda>cmd. [Log (SendingCommand cmd), Exec (cmd @ ''\<newline>'')]) cmds)"

definition interactive_platform :: "string \<Rightarrow> bool" where
  "interactive_platform pf = (pf \<in> set [''h3c'', ''h3c_core'', ''cisco_wlc'', ''cisco_asa''])"

section \<open>Notions for the API path and further examples\<close>

text \<open>
  The URL, the authorization header and the file path that \<^verbatim>\<open>fortinet_api_backup\<close>
  builds for a device and an API key.
\<close>

definition api_url :: "device \<Rightarrow> string" where
  "api_url d = ''https://'' @ hostip d @ '':''
                 @ (case api_port d of None \<Rightarrow> ''443'' | Some p \<Rightarrow> p)
                 @ ''/api/v2/monitor/system/config/backup?scope=global''"

definition api_auth :: "string \<Rightarrow> string" where
  "api_auth k = ''Bearer '' @ k"

definition conf_path :: "world \<Rightarrow> device \<Rightarrow> string" where
  "conf_path w d =
     path_join ''backup'' (groups d)
       (name d @ ''_'' @ replace_dots (hostip d) @ ''_'' @ now w @ ''.conf'')"

definition empty_stream :: "string \<Rightarrow> exn + rd list" where
  "empty_stream cmd = Inr []"

definition mute_client :: client where
  "mute_client = \<lparr>exec_command = empty_stream, invoke_shell = Inr silent_shell\<rparr>"

definition connect_mute :: "string \<Rightarrow> string \<Rightarrow> string \<Rightarrow> exn + client" where
  "connect_mute host user pw = Inr mute_client"

definition example_inventory :: inventory where
  "example_inventory = \<lparr>creds = example_creds, devices = [router, firewall]\<rparr>"

definition h3c_inventory :: inventory where
  "h3c_inventory = \<lparr>creds = example_creds, devices = [router, h3c_switch]\<rparr>"

definition refusing_world :: world where
  "refusing_world = example_world\<lparr>ssh_connect := connect_refused\<rparr>"

definition timing_out_world :: world where
  "timing_out_world = example_world\<lparr>ssh_connect := connect_failing_client\<rparr>"

definition mute_world :: world where
  "mute_world = example_world\<lparr>ssh_connect := connect_mute\<rparr>"

definition forbidden_world :: world where
  "forbidden_world = example_world\<lparr>http_get := get_forbidden\<rparr>"

definition unreachable_world :: world where
  "unreachable_world = example_world\<lparr>http_get := get_unreachable\<rparr>"

definition read_only_world :: world where
  "read_only_world = example_world\<lparr>open_file := fs_denied\<rparr>"

definition no_directory_world :: world where
  "no_directory_world = example_world\<lparr>makedirs := fs_denied\<rparr>"

section \<open>Notions for the batch\<close>

text \<open>The result of the task of one device, without its effects.\<close>

definition task_result :: "world \<Rightarrow> inventory \<Rightarrow> device \<Rightarrow> (exn + bool) option" where
  "task_result w cfg d = map_option fst (backup_device w cfg d)"

definition failing_world :: world where
  "failing_world = example_world\<lparr>ssh_connect := connect_refused, http_get := get_unreachable\<rparr>"

definition mixed_inventory :: inventory where
  "mixed_inventory = \<lparr>creds = example_creds, devices = [router, unknown_device, firewall]\<rparr>"

text \<open>The log records written with \<^verbatim>\<open>logging.error\<close>, and the events that are such.\<close>

fun error_level :: "log_msg \<Rightarrow> bool" where
  "error_level (ApiNoKey h) = True"
| "error_level (ApiSuccess h p) = False"
| "error_level (ApiFailed h s t) = True"
| "error_level (ApiException h e) = True"
| "error_level (ConnectFailed h e) = True"
| "error_level (SendingCommand c) = False"
| "error_level (CommandFailed c e) = True"
| "error_level (UsingCommand p c) = False"
| "error_level (UnsupportedPlatform p) = True"
| "error_level (ExecutionFailed e) = True"
| "error_level (SaveSuccess h p) = False"
| "error_level (SaveFailed h e) = True"
| "error_level (Summary s t) = False"

fun is_error :: "event \<Rightarrow> bool" where
  "is_error (Log m) = error_level m"
| "is_error ev = False"

text \<open>
  A poll \<open>n\<close> that leaves a login loop waiting, when the loop began at poll \<open>k\<close> with
  the buffer \<open>buff\<close>: no data, or data after which the prompt is still not in the
  buffer. And a shell that sends a banner and then stays silent.
\<close>

definition await_pending ::
  "(bytes \<Rightarrow> string) \<Rightarrow> string \<Rightarrow> (nat \<Rightarrow> poll) \<Rightarrow> nat \<Rightarrow> string \<Rightarrow> nat \<Rightarrow> bool" where
  "await_pending dec flag ch k buff n =
     (case ch n of
        NotReady \<Rightarrow> True
      | Data b \<Rightarrow> \<not> str_in flag (buff @ concat (map (\<lambda>j. chunk_text dec (ch j)) [k..<Suc n]))
      | RecvError e \<Rightarrow> False)"

definition banner_shell :: "nat \<Rightarrow> poll" where
  "banner_shell k = (if k = 0 then Data ''Welcome'' else NotReady)"


text \<open>
  The file path that \<^verbatim>\<open>save_config\<close> builds for a device, and an inventory that
  holds the API device only.
\<close>

definition cfg_path :: "world \<Rightarrow> device \<Rightarrow> string" where
  "cfg_path w d =
     path_join ''backup'' (groups d)
       (name d @ ''_'' @ replace_dots (hostip d) @ ''_'' @ now w @ ''.cfg'')"

definition api_inventory :: inventory where
  "api_inventory = \<lparr>creds = example_creds, devices = [firewall]\<rparr>"

text \<open>
  An ASA firewall whose shell delivers the first part of the configuration, then has
  nothing for one poll, then delivers the rest.
\<close>

definition asa_shell :: "nat \<Rightarrow> poll" where
  "asa_shell k =
     (if k = 0 then Data ''show running-config\<newline>hostname A\<newline>''
      else if k = 1 then NotReady
      else Data ''interface e0\<newline>'')"

definition asa_client :: client where
  "asa_client = \<lparr>exec_command = example_stream, invoke_shell = Inr asa_shell\<rparr>"

definition connect_asa :: "string \<Rightarrow> string \<Rightarrow> string \<Rightarrow> exn + client" where
  "connect_asa host user pw = Inr asa_client"

definition asa_world :: world where
  "asa_world = example_world\<lparr>ssh_connect := connect_asa\<rparr>"

definition asa_firewall :: device where
  "asa_firewall = \<lparr>name = ''A1'', hostip = ''10.0.0.5'', platform = ''cisco_asa'',
                   groups = ''edge'', api_key = None, api_port = None\<rparr>"

text \<open>
  A router that answers the command with its echo and nothing else.
\<close>

definition echo_stream :: "string \<Rightarrow> exn + rd list" where
  "echo_stream cmd = Inr [Chunk ''show running-config\<newline>'']"

definition echo_client :: client where
  "echo_client = \<lparr>exec_command = echo_stream, invoke_shell = Inr silent_shell\<rparr>"

definition connect_echo :: "string \<Rightarrow> string \<Rightarrow> string \<Rightarrow> exn + client" where
  "connect_echo host user pw = Inr echo_client"

definition echo_world :: world where
  "echo_world = example_world\<lparr>ssh_connect := connect_echo\<rparr>"

section \<open>Properties\<close>

lemma find_SomeD: "find P xs = Some x \<Longrightarrow> x \<in> set xs \<and> P x"
  by (induction xs) (auto split: if_splits)

subsection \<open>The sanitizer\<close>

lemma re_search_None:
  "re_search alts cfg pos = None \<longleftrightarrow> (\<forall>i \<le> length cfg. \<forall>a \<in> set alts. \<not> prefix a (drop i cfg))"
proof (induction cfg arbitrary: pos)
  case Nil
  show ?case by (auto simp: find_None_iff split: option.splits dest: find_SomeD)
next
  case (Cons c cs)
  show ?case
  proof (cases "find (\<lambda>a. prefix a (c # cs)) alts")
    case None
    then have no0: "\<forall>a \<in> set alts. \<not> prefix a (c # cs)" by (simp add: find_None_iff)
    have "(\<forall>i \<le> length (c # cs). \<forall>a \<in> set alts. \<not> prefix a (drop i (c # cs)))
          \<longleftrightarrow> (\<forall>i \<le> length cs. \<forall>a \<in> set alts. \<not> prefix a (drop i cs))"
    proof
      assume h: "\<forall>i \<le> length (c # cs). \<forall>a \<in> set alts. \<not> prefix a (drop i (c # cs))"
      show "\<forall>i \<le> length cs. \<forall>a \<in> set alts. \<not> prefix a (drop i cs)"
      proof (intro allI impI)
        fix i assume "i \<le> length cs"
        then have "Suc i \<le> length (c # cs)" by simp
        with h have "\<forall>a \<in> set alts. \<not> prefix a (drop (Suc i) (c # cs))" by blast
        then show "\<forall>a \<in> set alts. \<not> prefix a (drop i cs)" by simp
      qed
    next
      assume h: "\<forall>i \<le> length cs. \<forall>a \<in> set alts. \<not> prefix a (drop i cs)"
      show "\<forall>i \<le> length (c # cs). \<forall>a \<in> set alts. \<not> prefix a (drop i (c # cs))"
      proof (intro allI impI)
        fix i assume "i \<le> length (c # cs)"
        show "\<forall>a \<in> set alts. \<not> prefix a (drop i (c # cs))"
        proof (cases i)
          case 0
          with no0 show ?thesis by simp
        next
          case (Suc j)
          with \<open>i \<le> length (c # cs)\<close> have "j \<le> length cs" by simp
          with h Suc show ?thesis by simp
        qed
      qed
    qed
    with None Cons.IH [of "Suc pos"] show ?thesis by simp
  next
    case (Some a)
    then have "a \<in> set alts" "prefix a (c # cs)"
      by (auto simp: find_Some_iff)
    then have "\<not> (\<forall>i \<le> length (c # cs). \<forall>a \<in> set alts. \<not> prefix a (drop i (c # cs)))"
      by (metis drop0 le0)
    with Some show ?thesis by simp
  qed
qed

lemma re_search_Some:
  "re_search alts cfg pos = Some e \<Longrightarrow>
     \<exists>i a. i \<le> length cfg \<and> find (\<lambda>a. prefix a (drop i cfg)) alts = Some a
         \<and> (\<forall>j < i. \<forall>a' \<in> set alts. \<not> prefix a' (drop j cfg))
         \<and> e = pos + i + length a"
proof (induction cfg arbitrary: pos)
  case Nil
  then show ?case by (auto split: option.splits)
next
  case (Cons c cs)
  show ?case
  proof (cases "find (\<lambda>a. prefix a (c # cs)) alts")
    case (Some a)
    with Cons.prems have "e = pos + 0 + length a" by simp
    with Some show ?thesis
      by (intro exI [of _ 0] exI [of _ a]) simp
  next
    case None
    then have no0: "\<forall>a \<in> set alts. \<not> prefix a (c # cs)" by (simp add: find_None_iff)
    from None Cons.prems have "re_search alts cs (Suc pos) = Some e" by simp
    from Cons.IH [OF this] obtain i a where
      ia: "i \<le> length cs" "find (\<lambda>a. prefix a (drop i cs)) alts = Some a"
          "\<forall>j < i. \<forall>a' \<in> set alts. \<not> prefix a' (drop j cs)" "e = Suc pos + i + length a"
      by blast
    have "\<forall>j < Suc i. \<forall>a' \<in> set alts. \<not> prefix a' (drop j (c # cs))"
    proof (intro allI impI)
      fix j assume "j < Suc i"
      show "\<forall>a' \<in> set alts. \<not> prefix a' (drop j (c # cs))"
      proof (cases j)
        case 0 with no0 show ?thesis by simp
      next
        case (Suc k)
        with \<open>j < Suc i\<close> have "k < i" by simp
        with ia(3) Suc show ?thesis by simp
      qed
    qed
    with ia show ?thesis
      by (intro exI [of _ "Suc i"] exI [of _ a]) simp
  qed
qed


lemma alternatives_nonempty:
  "commands \<noteq> Multi [] \<Longrightarrow> alternatives commands = command_strings commands"
  by (cases commands) auto

lemma clean_config_output_no_match:
  assumes "\<forall>i \<le> length config. \<forall>a \<in> set (alternatives commands). \<not> prefix a (drop i config)"
  shows "clean_config_output config commands = config"
  using assms re_search_None [of "alternatives commands" config 0]
  by (simp add: clean_config_output_def)

lemma clean_config_output_match:
  assumes "i \<le> length config"
    and "find (\<lambda>a. prefix a (drop i config)) (alternatives commands) = Some a"
    and "\<forall>j < i. \<forall>a' \<in> set (alternatives commands). \<not> prefix a' (drop j config)"
  shows "clean_config_output config commands = lstrip (drop (i + length a) config)"
proof -
  from assms(1,2) have "re_search (alternatives commands) config 0 \<noteq> None"
    using re_search_None [of "alternatives commands" config 0] find_SomeD by fastforce
  then obtain e where e: "re_search (alternatives commands) config 0 = Some e" by blast
  from re_search_Some [OF e] obtain i' a' where
    *: "i' \<le> length config"
       "find (\<lambda>a. prefix a (drop i' config)) (alternatives commands) = Some a'"
       "\<forall>j < i'. \<forall>b \<in> set (alternatives commands). \<not> prefix b (drop j config)"
       "e = 0 + i' + length a'"
    by blast
  have "i' = i"
  proof (rule ccontr)
    assume "i' \<noteq> i"
    then consider "i' < i" | "i < i'" by linarith
    then show False
    proof cases
      case 1
      with assms(3) *(2) show False using find_SomeD by fastforce
    next
      case 2
      with *(3) assms(2) show False using find_SomeD by fastforce
    qed
  qed
  with *(2) assms(2) have "a' = a" by simp
  with \<open>i' = i\<close> *(4) e show ?thesis by (simp add: clean_config_output_def)
qed

lemma clean_config_output_nonempty:
  assumes "commands \<noteq> Multi []"
  shows "sanitizer_spec config (command_strings commands) (clean_config_output config commands)
       \<and> (\<forall>i \<in> {..length config}. \<forall>c.
            (\<forall>c' \<in> set (command_strings commands). \<forall>j \<in> {..<i}. \<not> occurs_at c' config j)
            \<and> find (\<lambda>a. prefix a (drop i config)) (command_strings commands) = Some c
            \<longrightarrow> clean_config_output config commands = lstrip (drop (i + length c) config))"
proof (intro conjI ballI allI impI)
  let ?cs = "command_strings commands"
  have alt: "alternatives commands = ?cs" using assms by (rule alternatives_nonempty)
  show "sanitizer_spec config ?cs (clean_config_output config commands)"
  proof (cases "re_search ?cs config 0")
    case None
    then have no: "\<forall>i \<le> length config. \<forall>a \<in> set ?cs. \<not> prefix a (drop i config)"
      by (simp add: re_search_None)
    then have "clean_config_output config commands = config"
      using clean_config_output_no_match [of config commands] alt by simp
    moreover from no have "\<not> (\<exists>c \<in> set ?cs. \<exists>i \<in> {..length config}. occurs_at c config i)"
      by (auto simp: occurs_at_def)
    ultimately show ?thesis by (simp add: sanitizer_spec_def)
  next
    case (Some e)
    from re_search_Some [OF Some] obtain i a where
      *: "i \<le> length config" "find (\<lambda>a. prefix a (drop i config)) ?cs = Some a"
         "\<forall>j < i. \<forall>b \<in> set ?cs. \<not> prefix b (drop j config)" "e = 0 + i + length a"
      by blast
    from *(2) have a: "a \<in> set ?cs" "prefix a (drop i config)"
      using find_SomeD by fastforce+
    from Some *(4) alt have r: "clean_config_output config commands = lstrip (drop (i + length a) config)"
      by (simp add: clean_config_output_def)
    have occ: "occurs_at a config i" using *(1) a(2) by (simp add: occurs_at_def)
    have left: "\<forall>c' \<in> set ?cs. \<forall>j \<in> {..<i}. \<not> occurs_at c' config j"
      using *(3) by (auto simp: occurs_at_def)
    have "\<exists>c \<in> set ?cs. \<exists>i \<in> {..length config}. occurs_at c config i"
      using a(1) occ *(1) by auto
    moreover have "\<exists>c \<in> set ?cs. \<exists>i \<in> {..length config}. occurs_at c config i
           \<and> (\<forall>c' \<in> set ?cs. \<forall>j \<in> {..<i}. \<not> occurs_at c' config j)
           \<and> clean_config_output config commands = lstrip (drop (i + length c) config)"
      using a(1) occ left r *(1) by auto
    ultimately show ?thesis by (simp add: sanitizer_spec_def)
  qed
next
  fix i c
  assume i: "i \<in> {..length config}"
    and h: "(\<forall>c' \<in> set (command_strings commands). \<forall>j \<in> {..<i}. \<not> occurs_at c' config j)
            \<and> find (\<lambda>a. prefix a (drop i config)) (command_strings commands) = Some c"
  have alt: "alternatives commands = command_strings commands"
    using assms by (rule alternatives_nonempty)
  from i have il: "i \<le> length config" by simp
  from h il have "\<forall>j < i. \<forall>a' \<in> set (alternatives commands). \<not> prefix a' (drop j config)"
    by (auto simp: occurs_at_def alt)
  with h il alt show "clean_config_output config commands = lstrip (drop (i + length c) config)"
    using clean_config_output_match [of i config commands c] by simp
qed

lemma clean_config_output_empty_list:
  "clean_config_output config (Multi []) = lstrip config"
  by (cases config) (simp_all add: clean_config_output_def)

text \<open>
  Claim C1, as the program has it. For every captured text and every command
  specification other than the empty list, the sanitizer meets its specification: when
  some command string occurs in the text, the result is the text after the end of an
  occurrence that starts at the leftmost position where any command string occurs,
  without its leading whitespace; when none occurs, the result is the text itself.
  Where several command strings occur at that leftmost position, the occurrence taken
  is that of the first of them in the order of the list. For the empty list, the result
  is, for every text, the text without its leading whitespace.
\<close>

theorem clean_config_output_leftmost:
  "(commands \<noteq> Multi [] \<longrightarrow>
      sanitizer_spec config (command_strings commands) (clean_config_output config commands)
      \<and> (\<forall>i \<in> {..length config}. \<forall>c.
            (\<forall>c' \<in> set (command_strings commands). \<forall>j \<in> {..<i}. \<not> occurs_at c' config j)
            \<and> find (\<lambda>a. prefix a (drop i config)) (command_strings commands) = Some c
            \<longrightarrow> clean_config_output config commands = lstrip (drop (i + length c) config)))
   \<and> clean_config_output config (Multi []) = lstrip config"
  using clean_config_output_nonempty [of commands config]
        clean_config_output_empty_list [of config]
  by blast

theorem clean_config_output_leftmost_witness:
  "Multi [''show'', ''show run''] \<noteq> Multi []
   \<and> clean_config_output ''> show run\<newline> x'' (Multi [''show'', ''show run''])
     = lstrip (drop (2 + length ''show'') ''> show run\<newline> x'')
   \<and> clean_config_output ''> show run\<newline> x'' (Multi [''show'', ''show run''])
     = ''run\<newline> x''
   \<and> clean_config_output ''  hostname R1'' (Multi []) = ''hostname R1''"
proof -
  have ne: "Multi [''show'', ''show run''] \<noteq> Multi []" by simp
  have left: "\<forall>c' \<in> set (command_strings (Multi [''show'', ''show run''])).
                \<forall>j \<in> {..<2}. \<not> occurs_at c' ''> show run\<newline> x'' j"
  proof (intro ballI)
    fix c' j
    assume "c' \<in> set (command_strings (Multi [''show'', ''show run'']))" and "j \<in> {..<2::nat}"
    then have "c' = ''show'' \<or> c' = ''show run''" and "j = 0 \<or> j = 1" by auto
    then show "\<not> occurs_at c' ''> show run\<newline> x'' j"
      by (auto simp: occurs_at_def)
  qed
  have first: "find (\<lambda>a. prefix a (drop 2 ''> show run\<newline> x''))
                 (command_strings (Multi [''show'', ''show run''])) = Some ''show''"
    by simp
  have i: "(2::nat) \<in> {..length ''> show run\<newline> x''}" by simp
  from clean_config_output_leftmost
         [of "Multi [''show'', ''show run'']" "''> show run\<newline> x''"] ne left first i
  have "clean_config_output ''> show run\<newline> x'' (Multi [''show'', ''show run''])
        = lstrip (drop (2 + length ''show'') ''> show run\<newline> x'')"
    by blast
  moreover have "lstrip (drop (2 + length ''show'') ''> show run\<newline> x'') = ''run\<newline> x''"
    by (simp add: lstrip_def isspace_def)
  moreover from clean_config_output_leftmost [of "Multi []" "''  hostname R1''"]
  have "clean_config_output ''  hostname R1'' (Multi []) = lstrip ''  hostname R1''"
    by blast
  moreover have "lstrip ''  hostname R1'' = ''hostname R1''"
    by (simp add: lstrip_def isspace_def)
  ultimately show ?thesis using ne by simp
qed

text \<open>
  With the empty list of commands the pattern is empty and matches at the start of the
  text, so the leading whitespace is removed although no command string occurs.
\<close>

theorem clean_config_output_empty_list_counterexample:
  "clean_config_output '' x'' (Multi []) = ''x''
   \<and> \<not> sanitizer_spec '' x'' (command_strings (Multi [])) (clean_config_output '' x'' (Multi []))"
  by (simp add: sanitizer_spec_def clean_config_output_def lstrip_def isspace_def)

subsection \<open>The reading loops\<close>

lemma h3c_reading_returns:
  assumes "h3c_reading dec ch k out = Some r"
  shows "\<exists>j \<ge> k. \<not> h3c_pending dec (ch j)"
proof (rule h3c_reading.raw_induct
         [where P = "\<lambda>dec ch k out r. \<exists>j \<ge> k. \<not> h3c_pending dec (ch j)", OF _ assms])
  fix h3c :: "(bytes \<Rightarrow> string) \<Rightarrow> (nat \<Rightarrow> poll) \<Rightarrow> nat \<Rightarrow> string \<Rightarrow> (exn + string) option"
  fix dec ch k out r
  assume IH: "\<And>dec ch k out r. h3c dec ch k out = Some r \<Longrightarrow> \<exists>j \<ge> k. \<not> h3c_pending dec (ch j)"
  assume body: "(case ch k of
        NotReady \<Rightarrow> h3c dec ch (Suc k) out
      | Data b \<Rightarrow>
          (let data = dec b; output' = out @ data
           in if h3c_prompt data then Some (Inr output')
              else h3c dec ch (Suc k) output')
      | RecvError e \<Rightarrow> Some (Inl e)) = Some r"
  show "\<exists>j \<ge> k. \<not> h3c_pending dec (ch j)"
  proof (cases "h3c_pending dec (ch k)")
    case False
    then show ?thesis by (intro exI [of _ k]) simp
  next
    case True
    then have "\<exists>out'. h3c dec ch (Suc k) out' = Some r"
      using body by (cases "ch k") (auto simp: h3c_pending_def Let_def)
    then obtain out' where "h3c dec ch (Suc k) out' = Some r" by blast
    from IH [OF this] obtain j where "j \<ge> Suc k" "\<not> h3c_pending dec (ch j)" by blast
    then show ?thesis by (intro exI [of _ j]) simp
  qed
qed

lemma wlc_reading_returns:
  assumes "wlc_reading dec ch k out evs = Some r"
  shows "\<exists>j \<ge> k. \<not> wlc_pending dec (ch j)"
proof (rule wlc_reading.raw_induct
         [where P = "\<lambda>dec ch k out evs r. \<exists>j \<ge> k. \<not> wlc_pending dec (ch j)", OF _ assms])
  fix wlc :: "(bytes \<Rightarrow> string) \<Rightarrow> (nat \<Rightarrow> poll) \<Rightarrow> nat \<Rightarrow> string \<Rightarrow> event list
                \<Rightarrow> ((exn + string) \<times> event list) option"
  fix dec ch k out evs r
  assume IH: "\<And>dec ch k out evs r. wlc dec ch k out evs = Some r
                \<Longrightarrow> \<exists>j \<ge> k. \<not> wlc_pending dec (ch j)"
  assume body: "(case ch k of
        NotReady \<Rightarrow> wlc dec ch (Suc k) out evs
      | Data b \<Rightarrow>
          (let data = dec b;
               output' = out @ data;
               evs1 = (if str_in enter_flag data then evs @ [Send ''\<newline>''] else evs);
               evs2 = (if str_in more_flag data then evs1 @ [Send '' ''] else evs1)
           in if str_in end_flag data \<and> \<not> str_in more_flag data
              then Some (Inr output', evs2)
              else wlc dec ch (Suc k) output' evs2)
      | RecvError e \<Rightarrow> Some (Inl e, evs)) = Some r"
  show "\<exists>j \<ge> k. \<not> wlc_pending dec (ch j)"
  proof (cases "wlc_pending dec (ch k)")
    case False
    then show ?thesis by (intro exI [of _ k]) simp
  next
    case True
    then have "\<exists>out' evs'. wlc dec ch (Suc k) out' evs' = Some r"
      using body by (cases "ch k") (auto simp: wlc_pending_def Let_def split: if_splits)
    then obtain out' evs' where "wlc dec ch (Suc k) out' evs' = Some r" by blast
    from IH [OF this] obtain j where "j \<ge> Suc k" "\<not> wlc_pending dec (ch j)" by blast
    then show ?thesis by (intro exI [of _ j]) simp
  qed
qed

lemma await_prompt_returns:
  assumes "await_prompt dec flag ch k buff = Some r"
  shows "\<exists>j \<ge> k. ch j \<noteq> NotReady"
proof (rule await_prompt.raw_induct
         [where P = "\<lambda>dec flag ch k buff r. \<exists>j \<ge> k. ch j \<noteq> NotReady", OF _ assms])
  fix aw :: "(bytes \<Rightarrow> string) \<Rightarrow> string \<Rightarrow> (nat \<Rightarrow> poll) \<Rightarrow> nat \<Rightarrow> string \<Rightarrow> (exn + nat) option"
  fix dec flag ch k buff r
  assume IH: "\<And>dec flag ch k buff r. aw dec flag ch k buff = Some r
                \<Longrightarrow> \<exists>j \<ge> k. ch j \<noteq> NotReady"
  assume body: "(case ch k of
        NotReady \<Rightarrow> aw dec flag ch (Suc k) buff
      | Data b \<Rightarrow>
          (let buff' = buff @ dec b
           in if str_in flag buff' then Some (Inr (Suc k))
              else aw dec flag ch (Suc k) buff')
      | RecvError e \<Rightarrow> Some (Inl e)) = Some r"
  show "\<exists>j \<ge> k. ch j \<noteq> NotReady"
  proof (cases "ch k = NotReady")
    case False
    then show ?thesis by (intro exI [of _ k]) simp
  next
    case True
    with body have "aw dec flag ch (Suc k) buff = Some r" by simp
    from IH [OF this] obtain j where "j \<ge> Suc k" "ch j \<noteq> NotReady" by blast
    then show ?thesis by (intro exI [of _ j]) simp
  qed
qed

lemma h3c_reading_None:
  "\<forall>j \<ge> k. h3c_pending dec (ch j) \<Longrightarrow> h3c_reading dec ch k out = None"
  using h3c_reading_returns [of dec ch k out] by (cases "h3c_reading dec ch k out") auto

lemma wlc_reading_None:
  "\<forall>j \<ge> k. wlc_pending dec (ch j) \<Longrightarrow> wlc_reading dec ch k out evs = None"
  using wlc_reading_returns [of dec ch k out evs] by (cases "wlc_reading dec ch k out evs") auto

lemma await_prompt_None:
  "\<forall>j \<ge> k. ch j = NotReady \<Longrightarrow> await_prompt dec flag ch k buff = None"
  using await_prompt_returns [of dec flag ch k buff]
  by (cases "await_prompt dec flag ch k buff") auto

lemma completes_at_here:
  "ch k = Data b \<Longrightarrow> str_in end_flag (dec b) \<Longrightarrow> \<not> str_in more_flag (dec b)
     \<Longrightarrow> completes_at dec ch k out (out @ dec b)"
  unfolding completes_at_def
  by (intro exI [of _ k] exI [of _ b]) (simp add: chunk_text_def)

lemma completes_at_later:
  assumes "completes_at dec ch (Suc k) (out @ chunk_text dec (ch k)) t"
  shows "completes_at dec ch k out t"
proof -
  from assms obtain n b where n: "n \<ge> Suc k" "ch n = Data b" "str_in end_flag (dec b)"
      "\<not> str_in more_flag (dec b)"
      "t = (out @ chunk_text dec (ch k)) @ concat (map (\<lambda>j. chunk_text dec (ch j)) [Suc k..<Suc n])"
    unfolding completes_at_def by blast
  from n(1) have "[k..<Suc n] = k # [Suc k..<Suc n]"
    by (simp add: upt_conv_Cons)
  with n(5) have "t = out @ concat (map (\<lambda>j. chunk_text dec (ch j)) [k..<Suc n])"
    by simp
  with n(1-4) show ?thesis
    unfolding completes_at_def by (intro exI [of _ n] exI [of _ b]) simp
qed

lemma wlc_reading_completes_aux:
  assumes "wlc_reading dec ch k out evs = Some r"
  shows "\<forall>t evs'. r = (Inr t, evs') \<longrightarrow> completes_at dec ch k out t"
proof (rule wlc_reading.raw_induct
         [where P = "\<lambda>dec ch k out evs r. \<forall>t evs'. r = (Inr t, evs') \<longrightarrow> completes_at dec ch k out t",
          OF _ assms])
  fix wlc :: "(bytes \<Rightarrow> string) \<Rightarrow> (nat \<Rightarrow> poll) \<Rightarrow> nat \<Rightarrow> string \<Rightarrow> event list
                \<Rightarrow> ((exn + string) \<times> event list) option"
  fix dec ch k out evs r
  assume IH: "\<And>dec ch k out evs r. wlc dec ch k out evs = Some r
                \<Longrightarrow> \<forall>t evs'. r = (Inr t, evs') \<longrightarrow> completes_at dec ch k out t"
  assume body: "(case ch k of
        NotReady \<Rightarrow> wlc dec ch (Suc k) out evs
      | Data b \<Rightarrow>
          (let data = dec b;
               output' = out @ data;
               evs1 = (if str_in enter_flag data then evs @ [Send ''\<newline>''] else evs);
               evs2 = (if str_in more_flag data then evs1 @ [Send '' ''] else evs1)
           in if str_in end_flag data \<and> \<not> str_in more_flag data
              then Some (Inr output', evs2)
              else wlc dec ch (Suc k) output' evs2)
      | RecvError e \<Rightarrow> Some (Inl e, evs)) = Some r"
  show "\<forall>t evs'. r = (Inr t, evs') \<longrightarrow> completes_at dec ch k out t"
  proof (intro allI impI)
    fix t evs' assume r: "r = (Inr t, evs')"
    show "completes_at dec ch k out t"
    proof (cases "ch k")
      case NotReady
      with body have "wlc dec ch (Suc k) out evs = Some r" by simp
      from IH [OF this] r have "completes_at dec ch (Suc k) out t" by blast
      with NotReady show ?thesis
        using completes_at_later [of dec ch k out t] by (simp add: chunk_text_def)
    next
      case (RecvError e)
      with body r show ?thesis by simp
    next
      case (Data b)
      show ?thesis
      proof (cases "str_in end_flag (dec b) \<and> \<not> str_in more_flag (dec b)")
        case True
        with body Data r have "t = out @ dec b" by (simp add: Let_def)
        with True Data show ?thesis using completes_at_here [of ch k b dec out] by simp
      next
        case False
        with body Data have "\<exists>evs2. wlc dec ch (Suc k) (out @ dec b) evs2 = Some r"
          by (auto simp: Let_def split: if_splits)
        then obtain evs2 where "wlc dec ch (Suc k) (out @ dec b) evs2 = Some r" by blast
        from IH [OF this] r have "completes_at dec ch (Suc k) (out @ dec b) t" by blast
        with Data show ?thesis
          using completes_at_later [of dec ch k out t] by (simp add: chunk_text_def)
      qed
    qed
  qed
qed

lemma wlc_reading_paging:
  assumes "ch k = Data b" and "str_in more_flag (dec b)"
  shows "wlc_reading dec ch k out evs
         = wlc_reading dec ch (Suc k) (out @ dec b) (evs @ [Send ''\<newline>'', Send '' ''])"
  using assms by (subst wlc_reading.simps) (simp add: Let_def enter_flag_def more_flag_def)

lemma paging_eval:
  "wlc_reading decode_ascii paging_shell 0 '''' []
   = Some (Inr ''(Cisco Controller) >?Press Enter to continue(Cisco Controller) >?'',
           [Send ''\<newline>'', Send '' ''])"
  apply (subst wlc_reading.simps)
  apply (simp add: paging_shell_def decode_ascii_def Let_def enter_flag_def more_flag_def end_flag_def)
  apply (subst wlc_reading.simps)
  apply (simp add: paging_shell_def decode_ascii_def Let_def enter_flag_def more_flag_def end_flag_def)
  done


text \<open>
  Claim C2. In the reading loop of the wireless controller, a chunk in which the paging
  flag occurs never completes the capture, whether or not the end flag occurs in it
  too: the loop sends the continuation keys and goes on with the next poll. A capture
  that the loop returns was completed by a chunk that holds the end flag and not the
  paging flag.
\<close>

theorem wlc_pagination_precedence:
  "(ch k = Data b \<and> str_in more_flag (dec b) \<longrightarrow>
      wlc_reading dec ch k out evs
      = wlc_reading dec ch (Suc k) (out @ dec b) (evs @ [Send ''\<newline>'', Send '' '']))
   \<and> (wlc_reading dec ch k out evs = Some (Inr t, evs') \<longrightarrow> completes_at dec ch k out t)"
  using wlc_reading_paging [of ch k b dec out evs]
        wlc_reading_completes_aux [of dec ch k out evs "(Inr t, evs')"]
  by blast

theorem wlc_pagination_precedence_witness:
  "paging_shell 0 = Data ''(Cisco Controller) >?Press Enter to continue''
   \<and> str_in more_flag (decode_ascii ''(Cisco Controller) >?Press Enter to continue'')
   \<and> str_in end_flag (decode_ascii ''(Cisco Controller) >?Press Enter to continue'')
   \<and> wlc_reading decode_ascii paging_shell 0 '''' []
       = wlc_reading decode_ascii paging_shell (Suc 0)
           ('''' @ decode_ascii ''(Cisco Controller) >?Press Enter to continue'')
           ([] @ [Send ''\<newline>'', Send '' ''])
   \<and> wlc_reading decode_ascii paging_shell 0 '''' []
       = Some (Inr ''(Cisco Controller) >?Press Enter to continue(Cisco Controller) >?'',
               [Send ''\<newline>'', Send '' ''])
   \<and> completes_at decode_ascii paging_shell 0 ''''
         ''(Cisco Controller) >?Press Enter to continue(Cisco Controller) >?''"
proof -
  have p: "paging_shell 0 = Data ''(Cisco Controller) >?Press Enter to continue''"
    by (simp add: paging_shell_def)
  have m: "str_in more_flag (decode_ascii ''(Cisco Controller) >?Press Enter to continue'')"
    by (simp add: more_flag_def decode_ascii_def)
  have e: "str_in end_flag (decode_ascii ''(Cisco Controller) >?Press Enter to continue'')"
    by (simp add: end_flag_def decode_ascii_def)
  from wlc_pagination_precedence
         [of paging_shell 0 "''(Cisco Controller) >?Press Enter to continue''" decode_ascii
             "''''" "[]"
             "''(Cisco Controller) >?Press Enter to continue(Cisco Controller) >?''"
             "[Send ''\<newline>'', Send '' '']"]
       p m e paging_eval
  show ?thesis by simp
qed

lemma wlc_shell_login_None:
  "\<forall>j \<ge> k. ch j = NotReady \<Longrightarrow> wlc_shell_login dec cr ch k = None"
  by (simp add: wlc_shell_login_def await_prompt_None)

lemma silent_shell_pending: "\<forall>j \<ge> k. h3c_pending dec (silent_shell j)"
  by (simp add: h3c_pending_def silent_shell_def)

lemma backup_commands_h3c:
  "backup_commands ''h3c''
   = Some (Multi [''screen-length disable'', ''display current-configuration''])"
  by (simp add: backup_commands_def)

lemma h3c_capture_hangs:
  "get_backup decode_ascii example_creds example_client ''h3c'' = None"
  by (simp add: get_backup_def get_backup_body_def backup_commands_h3c example_client_def
        h3c_reading_None [OF silent_shell_pending])

lemma await_pending_shift:
  assumes "Suc k \<le> n"
  shows "await_pending dec flag ch (Suc k) (buff @ chunk_text dec (ch k)) n
         = await_pending dec flag ch k buff n"
proof -
  from assms have "k < Suc n" by simp
  then have "concat (map (\<lambda>j. chunk_text dec (ch j)) [k..<Suc n])
        = chunk_text dec (ch k) @ concat (map (\<lambda>j. chunk_text dec (ch j)) [Suc k..<Suc n])"
    by (subst upt_conv_Cons) simp_all
  then show ?thesis
    by (simp add: await_pending_def del: upt_Suc split: poll.splits)
qed

lemma await_prompt_ends:
  assumes "await_prompt dec flag ch k buff = Some r"
  shows "\<exists>n \<ge> k. \<not> await_pending dec flag ch k buff n"
proof (rule await_prompt.raw_induct
         [where P = "\<lambda>dec flag ch k buff r. \<exists>n \<ge> k. \<not> await_pending dec flag ch k buff n",
          OF _ assms])
  fix aw :: "(bytes \<Rightarrow> string) \<Rightarrow> string \<Rightarrow> (nat \<Rightarrow> poll) \<Rightarrow> nat \<Rightarrow> string \<Rightarrow> (exn + nat) option"
  fix dec flag ch k buff r
  assume IH: "\<And>dec flag ch k buff r. aw dec flag ch k buff = Some r
                \<Longrightarrow> \<exists>n \<ge> k. \<not> await_pending dec flag ch k buff n"
  assume body: "(case ch k of
        NotReady \<Rightarrow> aw dec flag ch (Suc k) buff
      | Data b \<Rightarrow>
          (let buff' = buff @ dec b
           in if str_in flag buff' then Some (Inr (Suc k))
              else aw dec flag ch (Suc k) buff')
      | RecvError e \<Rightarrow> Some (Inl e)) = Some r"
  show "\<exists>n \<ge> k. \<not> await_pending dec flag ch k buff n"
  proof (cases "await_pending dec flag ch k buff k")
    case False
    then show ?thesis by blast
  next
    case True
    then have "aw dec flag ch (Suc k) (buff @ chunk_text dec (ch k)) = Some r"
      using body by (cases "ch k") (auto simp: await_pending_def chunk_text_def Let_def)
    from IH [OF this] obtain n where n: "n \<ge> Suc k"
      "\<not> await_pending dec flag ch (Suc k) (buff @ chunk_text dec (ch k)) n" by blast
    with await_pending_shift [of k n dec flag ch buff]
    have "\<not> await_pending dec flag ch k buff n" by simp
    with n(1) show ?thesis by (intro exI [of _ n]) simp
  qed
qed

lemma await_prompt_waits:
  "\<forall>n \<ge> k. await_pending dec flag ch k buff n \<Longrightarrow> await_prompt dec flag ch k buff = None"
  using await_prompt_ends [of dec flag ch k buff]
  by (cases "await_prompt dec flag ch k buff") auto

lemma wlc_shell_login_waits_user:
  "\<forall>n \<ge> k. await_pending dec ''User:'' ch k '''' n \<Longrightarrow> wlc_shell_login dec cr ch k = None"
  by (simp add: wlc_shell_login_def await_prompt_waits)

lemma wlc_shell_login_waits_password:
  assumes "await_prompt dec ''User:'' ch k '''' = Some (Inr k1)"
    and "\<forall>n \<ge> k1. await_pending dec ''Password:'' ch k1 '''' n"
  shows "wlc_shell_login dec cr ch k = None"
  using assms by (simp add: wlc_shell_login_def await_prompt_waits)

lemma banner_shell_pending:
  "h3c_pending decode_ascii (banner_shell j)" "wlc_pending decode_ascii (banner_shell j)"
  "await_pending decode_ascii ''User:'' banner_shell 0 '''' j"
  by (simp_all add: h3c_pending_def wlc_pending_def await_pending_def banner_shell_def
        decode_ascii_def chunk_text_def end_flag_def more_flag_def)

text \<open>
  Claim C3, as the program has it. The interactive loops have no wait budget and no
  time-out state. A loop ends only at a poll whose chunk holds what the loop waits for,
  or at which \<^verbatim>\<open>recv\<close> raises: the prompt pattern for the H3C loop, the end flag
  without the paging flag for the loop of the wireless controller, and for each of the
  two loops of the login the prompt in the text received since that loop began. As long
  as no such poll comes, whether no data arrives or data without the pattern, the loop
  polls for ever: it returns neither a capture nor a failure.
\<close>

theorem reading_loops_poll_forever:
  "((\<forall>j \<ge> k. h3c_pending dec (ch j)) \<longrightarrow> h3c_reading dec ch k out = None)
   \<and> ((\<forall>j \<ge> k. wlc_pending dec (ch j)) \<longrightarrow> wlc_reading dec ch k out evs = None)
   \<and> ((\<forall>j \<ge> k. ch j = NotReady) \<longrightarrow>
         await_prompt dec flag ch k buff = None \<and> wlc_shell_login dec cr ch k = None)
   \<and> ((\<forall>n \<ge> k. await_pending dec flag ch k buff n) \<longrightarrow>
         await_prompt dec flag ch k buff = None)
   \<and> ((\<forall>n \<ge> k. await_pending dec ''User:'' ch k '''' n) \<longrightarrow>
         wlc_shell_login dec cr ch k = None)
   \<and> (await_prompt dec ''User:'' ch k '''' = Some (Inr k1)
        \<and> (\<forall>n \<ge> k1. await_pending dec ''Password:'' ch k1 '''' n) \<longrightarrow>
         wlc_shell_login dec cr ch k = None)
   \<and> (h3c_reading dec ch k out = Some r1 \<longrightarrow> (\<exists>n \<ge> k. \<not> h3c_pending dec (ch n)))
   \<and> (wlc_reading dec ch k out evs = Some r2 \<longrightarrow> (\<exists>n \<ge> k. \<not> wlc_pending dec (ch n)))
   \<and> (await_prompt dec flag ch k buff = Some r3 \<longrightarrow>
         (\<exists>n \<ge> k. \<not> await_pending dec flag ch k buff n))"
  using h3c_reading_None [of k dec ch out] wlc_reading_None [of k dec ch out evs]
        await_prompt_None [of k ch dec flag buff] wlc_shell_login_None [of k ch dec cr]
        await_prompt_waits [of k dec flag ch buff]
        wlc_shell_login_waits_user [of k dec ch cr]
        wlc_shell_login_waits_password [of dec ch k k1 cr]
        h3c_reading_returns [of dec ch k out r1] wlc_reading_returns [of dec ch k out evs r2]
        await_prompt_ends [of dec flag ch k buff r3]
  by blast

theorem reading_loops_poll_forever_witness:
  "banner_shell 0 = Data ''Welcome''
   \<and> h3c_reading decode_ascii banner_shell 0 '''' = None
   \<and> wlc_reading decode_ascii banner_shell 0 '''' [] = None
   \<and> await_prompt decode_ascii ''User:'' banner_shell 0 '''' = None
   \<and> wlc_shell_login decode_ascii example_creds banner_shell 0 = None
   \<and> await_prompt decode_ascii ''User:'' silent_shell 0 '''' = None
   \<and> wlc_shell_login decode_ascii example_creds silent_shell 0 = None"
proof -
  have h: "\<forall>j \<ge> 0. h3c_pending decode_ascii (banner_shell j)"
    and w: "\<forall>j \<ge> 0. wlc_pending decode_ascii (banner_shell j)"
    and a: "\<forall>n \<ge> 0. await_pending decode_ascii ''User:'' banner_shell 0 '''' n"
    by (simp_all add: banner_shell_pending)
  have s: "\<forall>j \<ge> 0. silent_shell j = NotReady"
    by (simp add: silent_shell_def)
  from reading_loops_poll_forever
         [where k = 0 and dec = decode_ascii and ch = banner_shell and out = "''''"
            and evs = "[]" and flag = "''User:''" and buff = "''''" and cr = example_creds]
       h w a
  have 1: "h3c_reading decode_ascii banner_shell 0 '''' = None
   \<and> wlc_reading decode_ascii banner_shell 0 '''' [] = None
   \<and> await_prompt decode_ascii ''User:'' banner_shell 0 '''' = None
   \<and> wlc_shell_login decode_ascii example_creds banner_shell 0 = None"
    by blast
  from reading_loops_poll_forever
         [where k = 0 and dec = decode_ascii and ch = silent_shell
            and flag = "''User:''" and buff = "''''" and cr = example_creds]
       s
  have 2: "await_prompt decode_ascii ''User:'' silent_shell 0 '''' = None
   \<and> wlc_shell_login decode_ascii example_creds silent_shell 0 = None"
    by blast
  from 1 2 show ?thesis by (simp add: banner_shell_def)
qed

text \<open>
  A device of platform \<open>h3c\<close> whose shell stays silent: the capture never returns, so
  no time-out is ever reported.
\<close>

theorem h3c_capture_never_times_out:
  "get_backup decode_ascii example_creds example_client ''h3c'' = None"
  by (rule h3c_capture_hangs)


subsection \<open>The default path\<close>

lemma read_chunks_append:
  "read_chunks dec out (a @ b)
   = (case read_chunks dec out b of Inl e \<Rightarrow> Inl e | Inr t \<Rightarrow> Inr (a @ t))"
proof (induction out arbitrary: b)
  case Nil
  show ?case by simp
next
  case (Cons r rest)
  show ?case
  proof (cases r)
    case (ReadError e)
    then show ?thesis by simp
  next
    case (Chunk c)
    with Cons.IH [of "b @ dec c"] show ?thesis by simp
  qed
qed

lemma read_chunks_acc:
  "read_chunks dec out acc
   = (case read_chunks dec out '''' of Inl e \<Rightarrow> Inl e | Inr t \<Rightarrow> Inr (acc @ t))"
  using read_chunks_append [of dec out acc "''''"] by simp

lemma exec_loop_captured:
  "map (captured_text dec cl) cmds = map Some ts \<Longrightarrow>
     exec_loop dec cl cmds acc evs = (strip (acc @ concat ts), evs @ exec_trace cmds)"
proof (induction cmds arbitrary: ts acc evs)
  case Nil
  then show ?case by (simp add: exec_trace_def)
next
  case (Cons cmd rest)
  from Cons.prems obtain t ts' where ts: "ts = t # ts'"
    and t: "captured_text dec cl cmd = Some t"
    and rest: "map (captured_text dec cl) rest = map Some ts'"
    by (cases ts) auto
  from t obtain out where out: "exec_command cl (cmd @ ''\<newline>'') = Inr out"
    and rd: "read_chunks dec out '''' = Inr t"
    by (auto simp: captured_text_def split: sum.splits)
  from rd have "read_chunks dec out acc = Inr (acc @ t)"
    using read_chunks_acc [of dec out acc] by simp
  with out Cons.IH [OF rest, of "acc @ t"
      "evs @ [Log (SendingCommand cmd), Exec (cmd @ ''\<newline>'')]"] ts
  show ?case by (simp add: exec_trace_def)
qed

lemma exec_loop_failed:
  "\<exists>cmd \<in> set cmds. captured_text dec cl cmd = None \<Longrightarrow>
     fst (exec_loop dec cl cmds acc evs) = ''''"
proof (induction cmds arbitrary: acc evs)
  case Nil
  then show ?case by simp
next
  case (Cons cmd rest)
  show ?case
  proof (cases "exec_command cl (cmd @ ''\<newline>'')")
    case (Inl e)
    then show ?thesis by simp
  next
    case (Inr out)
    show ?thesis
    proof (cases "read_chunks dec out acc")
      case (Inl e)
      with Inr show ?thesis by simp
    next
      case r: (Inr acc')
      then have "read_chunks dec out '''' \<noteq> Inl e" for e
        using read_chunks_acc [of dec out acc] by (auto split: sum.splits)
      then have "captured_text dec cl cmd \<noteq> None"
        using Inr by (auto simp: captured_text_def split: sum.splits)
      with Cons.prems have "\<exists>cmd \<in> set rest. captured_text dec cl cmd = None" by auto
      from Cons.IH [OF this] Inr r show ?thesis by simp
    qed
  qed
qed

lemma exec_loop_no_send:
  "\<forall>ev \<in> set evs. \<not> is_send ev \<Longrightarrow>
     \<forall>ev \<in> set (snd (exec_loop dec cl cmds acc evs)). \<not> is_send ev"
proof (induction cmds arbitrary: acc evs)
  case Nil
  then show ?case by simp
next
  case (Cons cmd rest)
  let ?evs1 = "evs @ [Log (SendingCommand cmd), Exec (cmd @ ''\<newline>'')]"
  from Cons.prems have e1: "\<forall>ev \<in> set ?evs1. \<not> is_send ev" by simp
  show ?case
  proof (cases "exec_command cl (cmd @ ''\<newline>'')")
    case (Inl e)
    with Cons.prems show ?thesis by simp
  next
    case (Inr out)
    show ?thesis
    proof (cases "read_chunks dec out acc")
      case (Inl e)
      with Inr Cons.prems show ?thesis by simp
    next
      case r: (Inr acc')
      from Cons.IH [OF e1, of acc'] Inr r show ?thesis by simp
    qed
  qed
qed


lemma get_backup_events:
  assumes "get_backup dec cr cl pf = Some (r, evs)"
  shows "\<exists>r' evs' l. get_backup_body dec cr cl pf = Some (r', evs')
            \<and> (evs = evs' \<or> evs = evs' @ [Log l])"
proof -
  from assms obtain r' evs' where b: "get_backup_body dec cr cl pf = Some (r', evs')"
    by (cases "get_backup_body dec cr cl pf") (auto simp: get_backup_def)
  with assms have "evs = evs' \<or> (\<exists>l. evs = evs' @ [Log l])"
    by (auto simp: get_backup_def split: sum.splits exn.splits)
  with b show ?thesis by blast
qed



lemma example_captured:
  "captured_text decode_ascii example_client ''show running-config''
   = Some ''show running-config\<newline>hostname R1\<newline>''"
  by (simp add: captured_text_def example_client_def example_stream_def decode_ascii_def)

lemma failing_captured:
  "captured_text decode_ascii failing_client ''show running-config'' = None"
  by (simp add: captured_text_def failing_client_def failing_stream_def decode_ascii_def)

lemma strip_example:
  "strip ''show running-config\<newline>hostname R1\<newline>'' = ''show running-config\<newline>hostname R1''"
  by (simp add: strip_def rstrip_def lstrip_def isspace_def)

lemma backup_commands_cisco_ios:
  "backup_commands ''cisco_ios'' = Some (Single ''show running-config'')"
  by (simp add: backup_commands_def)



text \<open>
  \<^verbatim>\<open>execute_commands\<close>, which no registered platform reaches: it returns the
  concatenation, in command order, of the text captured for each command, stripped of
  the whitespace at both ends of the whole, and the empty string as soon as one command
  raises; it writes nothing to an interactive shell.
\<close>

lemma execute_commands_output:
  "(map (captured_text dec cl) cmds = map Some ts \<longrightarrow>
      execute_commands dec cl cmds = (strip (concat ts), exec_trace cmds))
   \<and> ((\<exists>cmd \<in> set cmds. captured_text dec cl cmd = None) \<longrightarrow>
         fst (execute_commands dec cl cmds) = '''')
   \<and> (\<forall>ev \<in> set (snd (execute_commands dec cl cmds)). \<not> is_send ev)"
proof (intro conjI impI)
  assume "map (captured_text dec cl) cmds = map Some ts"
  then show "execute_commands dec cl cmds = (strip (concat ts), exec_trace cmds)"
    unfolding execute_commands_def using exec_loop_captured [of dec cl cmds ts "''''" "[]"]
    by simp
next
  assume "\<exists>cmd \<in> set cmds. captured_text dec cl cmd = None"
  then show "fst (execute_commands dec cl cmds) = ''''"
    unfolding execute_commands_def by (rule exec_loop_failed)
next
  show "\<forall>ev \<in> set (snd (execute_commands dec cl cmds)). \<not> is_send ev"
    unfolding execute_commands_def by (rule exec_loop_no_send) simp
qed

lemma execute_commands_strips:
  "captured_text decode_ascii example_client ''show running-config''
   = Some ''show running-config\<newline>hostname R1\<newline>''
   \<and> fst (execute_commands decode_ascii example_client [''show running-config''])
     = ''show running-config\<newline>hostname R1''"
proof -
  have "fst (execute_commands decode_ascii example_client [''show running-config''])
        = ''show running-config\<newline>hostname R1''"
    by (simp add: execute_commands_def example_client_def example_stream_def
          decode_ascii_def strip_example)
  with example_captured show ?thesis by simp
qed





subsection \<open>Saving, the API path and the capture\<close>

lemma fortinet_no_key:
  "\<not> truthy (py_or (api_key d) (default_api_key cr)) \<Longrightarrow>
     fortinet_api_backup w cr d = (False, [Log (ApiNoKey (hostip d))])"
  by (cases "py_or (api_key d) (default_api_key cr)") (auto simp: fortinet_api_backup_def)

lemma fortinet_with_key:
  assumes "py_or (api_key d) (default_api_key cr) = Some k" and "k \<noteq> []"
  shows "fortinet_api_backup w cr d =
     (case http_get w (api_url d) (api_auth k) of
        Inl e \<Rightarrow> (False, [HttpGet (api_url d) (api_auth k), Log (ApiException (hostip d) e)])
      | Inr resp \<Rightarrow>
          if status_code resp = 200 then
            (case makedirs w (dirname (conf_path w d)) of
               Some e \<Rightarrow> (False, [HttpGet (api_url d) (api_auth k),
                                  Log (ApiException (hostip d) e)])
             | None \<Rightarrow>
                 (case open_file w (conf_path w d) of
                    Some e \<Rightarrow> (False, [HttpGet (api_url d) (api_auth k),
                                       MakeDirs (dirname (conf_path w d)),
                                       Log (ApiException (hostip d) e)])
                  | None \<Rightarrow>
                      (case write_file w (conf_path w d) (Bytes (content resp)) of
                         Some e \<Rightarrow> (False, [HttpGet (api_url d) (api_auth k),
                                            MakeDirs (dirname (conf_path w d)),
                                            Create (conf_path w d),
                                            Log (ApiException (hostip d) e)])
                       | None \<Rightarrow>
                           (True, [HttpGet (api_url d) (api_auth k),
                                   MakeDirs (dirname (conf_path w d)),
                                   Create (conf_path w d),
                                   Write (conf_path w d) (Bytes (content resp)),
                                   Log (ApiSuccess (hostip d) (conf_path w d))]))))
          else (False, [HttpGet (api_url d) (api_auth k),
                        Log (ApiFailed (hostip d) (status_code resp) (body_text resp))]))"
  using assms
  by (simp add: fortinet_api_backup_def api_url_def api_auth_def conf_path_def Let_def
           split: sum.splits option.splits)

lemma path_join2_suffix: "suffix b (path_join2 a b)"
  by (simp add: path_join2_def suffix_def)

lemma conf_path_suffix: "suffix ''.conf'' (conf_path w d)"
proof -
  let ?f = "name d @ ''_'' @ replace_dots (hostip d) @ ''_'' @ now w @ ''.conf''"
  have "suffix ''.conf'' ?f"
    unfolding suffix_def by (rule exI [of _ "name d @ ''_'' @ replace_dots (hostip d) @ ''_'' @ now w"]) simp
  moreover have "suffix ?f (conf_path w d)"
    unfolding conf_path_def path_join_def by (rule path_join2_suffix)
  ultimately show ?thesis by (rule suffix_order.trans)
qed

lemma save_config_empty:
  "save_config w None host nm grp commands = (Inr False, [])"
  "save_config w (Some '''') host nm grp commands = (Inr False, [])"
  by (simp_all add: save_config_def)

lemma save_config_raises:
  "save_config w config host nm grp commands = (Inl e, evs) \<Longrightarrow> \<exists>p. makedirs w p = Some e"
  by (auto simp: save_config_def Let_def split: option.splits if_splits)

lemma save_config_true_written:
  "save_config w config host nm grp commands = (Inr True, evs) \<Longrightarrow>
     \<exists>p c. Write p c \<in> set evs"
  by (auto simp: save_config_def Let_def split: option.splits if_splits)

lemma save_config_no_send:
  "save_config w config host nm grp commands = (r, evs) \<Longrightarrow> \<forall>ev \<in> set evs. \<not> is_send ev"
  by (auto simp: save_config_def Let_def split: option.splits if_splits)

lemma is_send_not_file: "is_send ev \<Longrightarrow> \<not> is_file_event ev"
  by (cases ev) simp_all

lemma wlc_reading_events:
  assumes "wlc_reading dec ch k out evs = Some r"
  shows "\<exists>sent. snd r = evs @ sent \<and> (\<forall>ev \<in> set sent. is_send ev)"
proof (rule wlc_reading.raw_induct
         [where P = "\<lambda>dec ch k out evs r. \<exists>sent. snd r = evs @ sent \<and> (\<forall>ev \<in> set sent. is_send ev)",
          OF _ assms])
  fix wlc :: "(bytes \<Rightarrow> string) \<Rightarrow> (nat \<Rightarrow> poll) \<Rightarrow> nat \<Rightarrow> string \<Rightarrow> event list
                \<Rightarrow> ((exn + string) \<times> event list) option"
  fix dec ch k out evs r
  assume IH: "\<And>dec ch k out evs r. wlc dec ch k out evs = Some r
                \<Longrightarrow> \<exists>sent. snd r = evs @ sent \<and> (\<forall>ev \<in> set sent. is_send ev)"
  assume body: "(case ch k of
        NotReady \<Rightarrow> wlc dec ch (Suc k) out evs
      | Data b \<Rightarrow>
          (let data = dec b;
               output' = out @ data;
               evs1 = (if str_in enter_flag data then evs @ [Send ''\<newline>''] else evs);
               evs2 = (if str_in more_flag data then evs1 @ [Send '' ''] else evs1)
           in if str_in end_flag data \<and> \<not> str_in more_flag data
              then Some (Inr output', evs2)
              else wlc dec ch (Suc k) output' evs2)
      | RecvError e \<Rightarrow> Some (Inl e, evs)) = Some r"
  show "\<exists>sent. snd r = evs @ sent \<and> (\<forall>ev \<in> set sent. is_send ev)"
  proof (cases "ch k")
    case NotReady
    with body have "wlc dec ch (Suc k) out evs = Some r" by simp
    from IH [OF this] show ?thesis .
  next
    case (RecvError e)
    with body have "snd r = evs @ []" by auto
    then show ?thesis by (intro exI [of _ "[]"]) simp
  next
    case (Data b)
    define evs1 where "evs1 = (if str_in enter_flag (dec b) then evs @ [Send ''\<newline>''] else evs)"
    define evs2 where "evs2 = (if str_in more_flag (dec b) then evs1 @ [Send '' ''] else evs1)"
    have e2: "\<exists>s. evs2 = evs @ s \<and> (\<forall>ev \<in> set s. is_send ev)"
      by (auto simp: evs1_def evs2_def)
    then obtain s where s: "evs2 = evs @ s" "\<forall>ev \<in> set s. is_send ev" by blast
    show ?thesis
    proof (cases "str_in end_flag (dec b) \<and> \<not> str_in more_flag (dec b)")
      case True
      with body Data have "snd r = evs2"
        by (auto simp: Let_def evs1_def evs2_def)
      with s show ?thesis by blast
    next
      case False
      with body Data have "wlc dec ch (Suc k) (out @ dec b) evs2 = Some r"
        by (auto simp: Let_def evs1_def evs2_def split: if_splits)
      from IH [OF this] obtain s' where "snd r = evs2 @ s'" "\<forall>ev \<in> set s'. is_send ev"
        by blast
      with s show ?thesis by (intro exI [of _ "s @ s'"]) auto
    qed
  qed
qed

lemma wlc_shell_login_events:
  "wlc_shell_login dec cr ch k = Some (r, sent) \<Longrightarrow> \<forall>ev \<in> set sent. is_send ev"
  by (auto simp: wlc_shell_login_def split: option.splits sum.splits)

lemma exec_loop_events:
  assumes "\<forall>ev \<in> set evs. Q ev" and "\<And>l. Q (Log l)" and "\<And>c. Q (Exec c)"
  shows "\<forall>ev \<in> set (snd (exec_loop dec cl cmds acc evs)). Q ev"
  using assms(1)
proof (induction cmds arbitrary: acc evs)
  case Nil
  then show ?case by simp
next
  case (Cons cmd rest)
  let ?evs1 = "evs @ [Log (SendingCommand cmd), Exec (cmd @ ''\<newline>'')]"
  from Cons.prems assms(2,3) have e1: "\<forall>ev \<in> set ?evs1. Q ev" by simp
  show ?case
  proof (cases "exec_command cl (cmd @ ''\<newline>'')")
    case (Inl e)
    with Cons.prems assms(2,3) show ?thesis by simp
  next
    case (Inr out)
    show ?thesis
    proof (cases "read_chunks dec out acc")
      case (Inl e)
      with Inr Cons.prems assms(2,3) show ?thesis by simp
    next
      case r: (Inr acc')
      from Cons.IH [OF e1, of acc'] Inr r show ?thesis by simp
    qed
  qed
qed

lemma get_backup_body_no_file:
  assumes "get_backup_body dec cr cl pf = Some (r, evs)"
  shows "\<forall>ev \<in> set evs. \<not> is_file_event ev"
proof (cases "backup_commands pf")
  case None
  with assms show ?thesis by (auto simp: get_backup_body_def)
next
  case (Some command)
  consider (h3c) "pf \<in> set [''h3c'', ''h3c_core'']"
    | (wlc) "pf \<notin> set [''h3c'', ''h3c_core'']" "pf = ''cisco_wlc''"
    | (asa) "pf \<notin> set [''h3c'', ''h3c_core'']" "pf \<noteq> ''cisco_wlc''" "pf = ''cisco_asa''"
    | (dflt) "\<not> interactive_platform pf"
    by (auto simp: interactive_platform_def)
  then show ?thesis
  proof cases
    case h3c
    with Some assms show ?thesis
      by (cases "invoke_shell cl") (auto simp: get_backup_body_def)
  next
    case wlc
    show ?thesis
    proof (cases "invoke_shell cl")
      case (Inl e)
      with wlc Some assms show ?thesis by (auto simp: get_backup_body_def)
    next
      case (Inr ch)
      show ?thesis
      proof (cases "wlc_shell_login dec cr ch 0")
        case None
        with Inr wlc Some assms show ?thesis by (simp add: get_backup_body_def)
      next
        case l: (Some res)
        obtain lr sent where res: "res = (lr, sent)" by (cases res)
        from l res have sent: "\<forall>ev \<in> set sent. is_send ev"
          using wlc_shell_login_events by blast
        show ?thesis
        proof (cases lr)
          case (Inl e)
          with l res Inr wlc Some assms sent show ?thesis
            by (auto simp: get_backup_body_def dest: is_send_not_file)
        next
          case k: (Inr k)
          let ?e = "[Log (UsingCommand pf command)] @ sent
                    @ [Send ''config paging disable\<newline>'', Send ''show run-config\<newline>'']"
          from k l res Inr wlc Some assms
          have "wlc_reading dec ch k '''' ?e = Some (r, evs)"
            by (simp add: get_backup_body_def)
          from wlc_reading_events [OF this] obtain s where
            "evs = ?e @ s" "\<forall>ev \<in> set s. is_send ev" by auto
          with sent show ?thesis by (auto dest: is_send_not_file)
        qed
      qed
    qed
  next
    case asa
    with Some assms show ?thesis
      by (cases "invoke_shell cl") (auto simp: get_backup_body_def)
  next
    case dflt
    show ?thesis
    proof (cases command)
      case (Single c)
      show ?thesis
      proof (cases "exec_command cl c")
        case (Inl e)
        with Single Some assms dflt show ?thesis
          by (auto simp: get_backup_body_def interactive_platform_def)
      next
        case (Inr out)
        with Single Some assms dflt show ?thesis
          by (cases "read_all out []")
             (auto simp: get_backup_body_def interactive_platform_def)
      qed
    next
      case (Multi cmds)
      have nf: "\<forall>ev \<in> set (snd (execute_commands dec cl cmds)). \<not> is_file_event ev"
        unfolding execute_commands_def by (rule exec_loop_events) simp_all
      obtain t evs' where ex: "execute_commands dec cl cmds = (t, evs')"
        by (cases "execute_commands dec cl cmds")
      with nf have "\<forall>ev \<in> set evs'. \<not> is_file_event ev" by simp
      with Multi Some assms ex dflt show ?thesis
        by (auto simp: get_backup_body_def interactive_platform_def)
    qed
  qed
qed

lemma get_backup_no_file:
  assumes "get_backup dec cr cl pf = Some (r, evs)"
  shows "\<forall>ev \<in> set evs. \<not> is_file_event ev"
proof -
  from get_backup_events [OF assms] obtain r' evs' l where
    b: "get_backup_body dec cr cl pf = Some (r', evs')" and e: "evs = evs' \<or> evs = evs' @ [Log l]"
    by blast
  from get_backup_body_no_file [OF b] e show ?thesis by auto
qed

lemma get_backup_unknown:
  "backup_commands pf = None \<Longrightarrow>
     get_backup dec cr cl pf = Some (None, [Log (UnsupportedPlatform pf)])"
  by (simp add: get_backup_def get_backup_body_def)

lemma get_backup_known:
  assumes "get_backup dec cr cl pf = Some (Some config, evs)"
  shows "\<exists>evs'. get_backup_body dec cr cl pf = Some (Inr config, evs')
         \<and> backup_commands pf \<noteq> None"
proof -
  from assms have "\<exists>evs'. get_backup_body dec cr cl pf = Some (Inr config, evs')"
    by (cases "get_backup_body dec cr cl pf")
       (auto simp: get_backup_def split: sum.splits exn.splits)
  moreover from assms have "backup_commands pf \<noteq> None"
    using get_backup_unknown [of pf dec cr cl] by auto
  ultimately show ?thesis by blast
qed

lemma get_backup_raised:
  assumes "get_backup_body dec cr cl pf = Some (Inl e, evs)"
  shows "\<exists>l. get_backup dec cr cl pf = Some (None, evs @ [Log l])"
  using assms by (cases e) (auto simp: get_backup_def)


subsection \<open>Device tasks\<close>

lemma backup_commands_fortinet: "backup_commands ''fortinet'' = Some (Single ''show'')"
  by (simp add: backup_commands_def)

lemma backup_device_fortinet:
  "platform d = ''fortinet'' \<Longrightarrow>
     backup_device w cfg d
     = Some (Inr (fst (fortinet_api_backup w (creds cfg) d)),
             snd (fortinet_api_backup w (creds cfg) d))"
  by (simp add: backup_device_def split: prod.splits)

lemma backup_device_connect_failed:
  assumes "platform d \<noteq> ''fortinet''"
    and "ssh_connect w (hostip d) (username (creds cfg)) (password (creds cfg)) = Inl e"
  shows "backup_device w cfg d = Some (Inr False, [Log (ConnectFailed (hostip d) e)])"
  using assms by (simp add: backup_device_def connect_device_def)

lemma backup_device_connected:
  assumes "platform d \<noteq> ''fortinet''"
    and "ssh_connect w (hostip d) (username (creds cfg)) (password (creds cfg)) = Inr cl"
  shows "backup_device w cfg d =
     (case get_backup (decode w) (creds cfg) cl (platform d) of
        None \<Rightarrow> None
      | Some (config, evs2) \<Rightarrow>
          if \<not> truthy config then Some (Inr False, evs2)
          else
            (case backup_commands (platform d) of
               None \<Rightarrow> Some (Inl KeyError, evs2)
             | Some cmds \<Rightarrow>
                 (case save_config w config (hostip d) (name d) (groups d) (Some cmds) of
                    (r, evs3) \<Rightarrow> Some (r, evs2 @ evs3))))"
  using assms by (simp add: backup_device_def connect_device_def split: option.splits)

lemma backup_device_falsy:
  assumes "platform d \<noteq> ''fortinet''"
    and "ssh_connect w (hostip d) (username (creds cfg)) (password (creds cfg)) = Inr cl"
    and "get_backup (decode w) (creds cfg) cl (platform d) = Some (config, evs)"
    and "\<not> truthy config"
  shows "backup_device w cfg d = Some (Inr False, evs)"
  using assms by (simp add: backup_device_connected)

lemma backup_device_saving:
  assumes "platform d \<noteq> ''fortinet''"
    and "ssh_connect w (hostip d) (username (creds cfg)) (password (creds cfg)) = Inr cl"
    and "get_backup (decode w) (creds cfg) cl (platform d) = Some (Some config, evs)"
    and "config \<noteq> []"
  shows "\<exists>cmds. backup_commands (platform d) = Some cmds
           \<and> backup_device w cfg d
             = Some (fst (save_config w (Some config) (hostip d) (name d) (groups d) (Some cmds)),
                     evs @ snd (save_config w (Some config) (hostip d) (name d) (groups d)
                                  (Some cmds)))"
proof -
  from get_backup_known [OF assms(3)] obtain cmds where
    c: "backup_commands (platform d) = Some cmds" by auto
  with assms show ?thesis
    by (simp add: backup_device_connected split: prod.splits)
qed

lemma backup_device_unknown:
  assumes "backup_commands (platform d) = None"
  shows "backup_device w cfg d = Some (Inr False, [Log (UnsupportedPlatform (platform d))])
       \<or> (\<exists>e. backup_device w cfg d = Some (Inr False, [Log (ConnectFailed (hostip d) e)]))"
proof -
  from assms have nf: "platform d \<noteq> ''fortinet''"
    using backup_commands_fortinet by auto
  show ?thesis
  proof (cases "ssh_connect w (hostip d) (username (creds cfg)) (password (creds cfg))")
    case (Inl e)
    from backup_device_connect_failed [OF nf Inl] show ?thesis by blast
  next
    case (Inr cl)
    from backup_device_falsy [OF nf Inr get_backup_unknown [OF assms]]
    show ?thesis by simp
  qed
qed

text \<open>Every way a task can end.\<close>

lemma backup_device_cases:
  assumes "backup_device w cfg d = Some (r, evs)"
  obtains (api) "platform d = ''fortinet''"
      "r = Inr (fst (fortinet_api_backup w (creds cfg) d))"
      "evs = snd (fortinet_api_backup w (creds cfg) d)"
    | (refused) e where "platform d \<noteq> ''fortinet''"
      "ssh_connect w (hostip d) (username (creds cfg)) (password (creds cfg)) = Inl e"
      "r = Inr False" "evs = [Log (ConnectFailed (hostip d) e)]"
    | (falsy) cl config where "platform d \<noteq> ''fortinet''"
      "ssh_connect w (hostip d) (username (creds cfg)) (password (creds cfg)) = Inr cl"
      "get_backup (decode w) (creds cfg) cl (platform d) = Some (config, evs)"
      "\<not> truthy config" "r = Inr False"
    | (saving) cl config evs2 cmds where "platform d \<noteq> ''fortinet''"
      "ssh_connect w (hostip d) (username (creds cfg)) (password (creds cfg)) = Inr cl"
      "get_backup (decode w) (creds cfg) cl (platform d) = Some (Some config, evs2)"
      "config \<noteq> []" "backup_commands (platform d) = Some cmds"
      "r = fst (save_config w (Some config) (hostip d) (name d) (groups d) (Some cmds))"
      "evs = evs2 @ snd (save_config w (Some config) (hostip d) (name d) (groups d) (Some cmds))"
proof (cases "platform d = ''fortinet''")
  case True
  with assms backup_device_fortinet [OF True, of w cfg] api show ?thesis by simp
next
  case nf: False
  show ?thesis
  proof (cases "ssh_connect w (hostip d) (username (creds cfg)) (password (creds cfg))")
    case (Inl e)
    with assms backup_device_connect_failed [OF nf Inl] refused nf show ?thesis by simp
  next
    case (Inr cl)
    from assms backup_device_connected [OF nf Inr]
    obtain config evs2 where g: "get_backup (decode w) (creds cfg) cl (platform d) = Some (config, evs2)"
      by (cases "get_backup (decode w) (creds cfg) cl (platform d)") auto
    show ?thesis
    proof (cases "truthy config")
      case False
      from backup_device_falsy [OF nf Inr g False] assms falsy [OF nf Inr _ False] g
      show ?thesis by simp
    next
      case True
      then obtain c where c: "config = Some c" "c \<noteq> []" by (cases config) auto
      from backup_device_saving [OF nf Inr g [unfolded c(1)] c(2)] assms
        saving [OF nf Inr g [unfolded c(1)] c(2)]
      show ?thesis by auto
    qed
  qed
qed

lemma backup_device_raises:
  assumes "backup_device w cfg d = Some (Inl e, evs)"
  shows "\<exists>p. makedirs w p = Some e"
  using assms
proof (cases rule: backup_device_cases)
  case (saving cl config evs2 cmds)
  then have "save_config w (Some config) (hostip d) (name d) (groups d) (Some cmds)
             = (Inl e, snd (save_config w (Some config) (hostip d) (name d) (groups d) (Some cmds)))"
    by (metis prod.collapse)
  then show ?thesis by (rule save_config_raises)
qed simp_all

lemma fortinet_true_written:
  "fortinet_api_backup w cr d = (True, evs) \<Longrightarrow> \<exists>p c. Write p c \<in> set evs"
  by (auto simp: fortinet_api_backup_def Let_def split: option.splits sum.splits if_splits)

lemma backup_device_true_written:
  assumes "backup_device w cfg d = Some (Inr True, evs)"
  shows "\<exists>p c. Write p c \<in> set evs"
  using assms
proof (cases rule: backup_device_cases)
  case api
  then have "fortinet_api_backup w (creds cfg) d = (True, evs)"
    by (metis prod.collapse sum.inject(2))
  then show ?thesis by (rule fortinet_true_written)
next
  case (saving cl config evs2 cmds)
  then have "save_config w (Some config) (hostip d) (name d) (groups d) (Some cmds)
             = (Inr True, snd (save_config w (Some config) (hostip d) (name d) (groups d) (Some cmds)))"
    by (metis prod.collapse)
  from save_config_true_written [OF this] saving(7) show ?thesis by auto
qed simp_all

subsection \<open>The batch\<close>

lemma await_all_Some:
  "await_all fs = Some rs \<longleftrightarrow> fs = map Some rs"
proof (induction fs arbitrary: rs)
  case Nil
  show ?case by auto
next
  case (Cons f fs)
  show ?case
  proof (cases f)
    case None
    then show ?thesis by auto
  next
    case (Some r)
    show ?thesis
    proof (cases "await_all fs")
      case None
      have "fs \<noteq> map Some rs'" for rs'
        using Cons.IH [of rs'] None by simp
      then have "Some r # fs \<noteq> map Some rs" by (cases rs) auto
      with None Some show ?thesis by simp
    next
      case s: (Some rs')
      then have "fs = map Some rs'" using Cons.IH [of rs'] by simp
      with s Some show ?thesis by (cases rs) auto
    qed
  qed
qed

lemma await_all_None:
  "await_all fs = None \<longleftrightarrow> None \<in> set fs"
proof (induction fs)
  case Nil
  show ?case by simp
next
  case (Cons f fs)
  then show ?case by (cases f) (auto split: option.splits)
qed

lemma py_sum_Inr:
  "py_sum rs acc = Inr s \<Longrightarrow>
     (\<forall>r \<in> set rs. \<exists>b. r = Inr b) \<and> s = acc + int (length (filter (\<lambda>r. r = Inr True) rs))"
proof (induction rs acc rule: py_sum.induct)
  case (1 acc)
  then show ?case by simp
next
  case (2 e rs acc)
  then show ?case by simp
next
  case (3 b rs acc)
  then show ?case by (cases b) auto
qed

lemma py_sum_all_Inr:
  "\<forall>r \<in> set rs. \<exists>b. r = Inr b \<Longrightarrow>
     py_sum rs acc = Inr (acc + int (length (filter (\<lambda>r. r = Inr True) rs)))"
proof (induction rs acc rule: py_sum.induct)
  case (1 acc)
  then show ?case by simp
next
  case (2 e rs acc)
  then show ?case by simp
next
  case (3 b rs acc)
  then show ?case by (cases b) auto
qed

lemma py_sum_skip_False:
  "py_sum (rs1 @ Inr False # rs2) acc = py_sum (rs1 @ rs2) acc"
  by (induction rs1 acc rule: py_sum.induct) auto

lemma finished_results:
  assumes "map (backup_device w cfg) ds = map Some finished"
  shows "map (task_result w cfg) ds = map Some (map fst finished)"
proof -
  have "map (task_result w cfg) ds = map (map_option fst) (map (backup_device w cfg) ds)"
    by (simp add: task_result_def)
  with assms show ?thesis by simp
qed

lemma count_true:
  assumes "map f ds = map Some rs"
  shows "length (filter (\<lambda>r. r = Inr True) rs) = length (filter (\<lambda>d. f d = Some (Inr True)) ds)"
  using assms
proof (induction ds arbitrary: rs)
  case Nil
  then show ?case by simp
next
  case (Cons d ds)
  then obtain r rs' where "rs = r # rs'" "f d = Some r" "map f ds = map Some rs'"
    by (cases rs) auto
  with Cons.IH [of rs'] show ?case by auto
qed

lemma run_backup_summary:
  assumes "run_backup w cfg = Some (Inr (s, t), trs)"
  shows "s = int (length (filter (\<lambda>d. task_result w cfg d = Some (Inr True)) (devices cfg)))"
    and "t = int (length (devices cfg))"
    and "s \<le> t"
proof -
  from assms obtain finished where
    f: "await_all (map (backup_device w cfg) (devices cfg)) = Some finished"
    by (cases "await_all (map (backup_device w cfg) (devices cfg))")
       (auto simp: run_backup_def)
  then have m: "map (backup_device w cfg) (devices cfg) = map Some finished"
    by (simp add: await_all_Some)
  then have len: "length finished = length (devices cfg)"
    by (metis length_map)
  from assms f have p: "py_sum (map fst finished) 0 = Inr s" and t: "t = int (length finished)"
    by (auto simp: run_backup_def Let_def split: sum.splits)
  from py_sum_Inr [OF p]
  have "s = int (length (filter (\<lambda>r. r = Inr True) (map fst finished)))" by simp
  also have "length (filter (\<lambda>r. r = Inr True) (map fst finished))
      = length (filter (\<lambda>d. task_result w cfg d = Some (Inr True)) (devices cfg))"
    by (rule count_true [OF finished_results [OF m]])
  finally show "s = int (length (filter (\<lambda>d. task_result w cfg d = Some (Inr True)) (devices cfg)))" .
  from t len show "t = int (length (devices cfg))" by simp
  then show "s \<le> t"
    using \<open>s = int (length (filter (\<lambda>d. task_result w cfg d = Some (Inr True)) (devices cfg)))\<close>
    by simp
qed

lemma run_backup_completes:
  assumes "\<forall>d \<in> set (devices cfg). \<exists>b evs. backup_device w cfg d = Some (Inr b, evs)"
  shows "\<exists>s trs. run_backup w cfg
           = Some (Inr (s, int (length (devices cfg))),
                   trs @ [[Log (Summary s (int (length (devices cfg))))]])"
proof -
  from assms have "None \<notin> set (map (backup_device w cfg) (devices cfg))" by force
  then obtain finished where
    f: "await_all (map (backup_device w cfg) (devices cfg)) = Some finished"
    using await_all_None [of "map (backup_device w cfg) (devices cfg)"] by auto
  then have m: "map (backup_device w cfg) (devices cfg) = map Some finished"
    by (simp add: await_all_Some)
  then have len: "length finished = length (devices cfg)"
    by (metis length_map)
  have "\<forall>r \<in> set (map fst finished). \<exists>b. r = Inr b"
  proof
    fix r assume "r \<in> set (map fst finished)"
    then obtain x where x: "x \<in> set finished" "r = fst x" by auto
    then have "Some x \<in> set (map (backup_device w cfg) (devices cfg))"
      using m by simp
    then obtain d where "d \<in> set (devices cfg)" "backup_device w cfg d = Some x" by auto
    with assms x show "\<exists>b. r = Inr b" by force
  qed
  from py_sum_all_Inr [OF this, of 0] f len show ?thesis
    by (simp add: run_backup_def Let_def)
qed

lemma backup_device_devices_update [simp]:
  "backup_device w (cfg\<lparr>devices := ds\<rparr>) = backup_device w cfg"
  by (rule ext) (auto simp: backup_device_def split: prod.splits option.splits)

lemma await_all_append:
  "await_all (fs @ gs)
   = (case await_all fs of None \<Rightarrow> None
      | Some rs \<Rightarrow> (case await_all gs of None \<Rightarrow> None | Some ss \<Rightarrow> Some (rs @ ss)))"
  by (induction fs rule: await_all.induct) (auto split: option.splits)

lemma summary_skip_failed:
  assumes "\<exists>evs. backup_device w cfg d = Some (Inr False, evs)"
  shows "summary w (cfg\<lparr>devices := ds1 @ d # ds2\<rparr>)
         = map_option (map_sum id (\<lambda>(s, t). (s, t + 1)))
             (summary w (cfg\<lparr>devices := ds1 @ ds2\<rparr>))"
proof -
  from assms obtain evs where d: "backup_device w cfg d = Some (Inr False, evs)" by blast
  let ?bd = "backup_device w cfg"
  show ?thesis
  proof (cases "await_all (map ?bd ds1)")
    case None
    then show ?thesis by (simp add: summary_def run_backup_def await_all_append)
  next
    case r1: (Some rs1)
    show ?thesis
    proof (cases "await_all (map ?bd ds2)")
      case None
      with r1 d show ?thesis by (simp add: summary_def run_backup_def await_all_append)
    next
      case r2: (Some rs2)
      have a: "await_all (map ?bd (ds1 @ d # ds2)) = Some (rs1 @ (Inr False, evs) # rs2)"
        using r1 r2 d by (simp add: await_all_append)
      have b: "await_all (map ?bd (ds1 @ ds2)) = Some (rs1 @ rs2)"
        using r1 r2 by (simp add: await_all_append)
      have p: "py_sum (map fst (rs1 @ (Inr False, evs) # rs2)) 0 = py_sum (map fst (rs1 @ rs2)) 0"
        using py_sum_skip_False [of "map fst rs1" "map fst rs2" 0] by simp
      show ?thesis
        by (cases "py_sum (map fst (rs1 @ rs2)) 0")
           (simp_all add: summary_def run_backup_def a b p Let_def del: map_append)
    qed
  qed
qed


subsection \<open>Example runs\<close>

lemma router_capture:
  "get_backup decode_ascii example_creds example_client ''cisco_ios''
   = Some (Some ''show running-config\<newline>hostname R1\<newline>'',
           [Log (UsingCommand ''cisco_ios'' (Single ''show running-config'')),
            Exec ''show running-config''])"
  by (simp add: get_backup_def get_backup_body_def backup_commands_cisco_ios
        example_client_def example_stream_def decode_ascii_def)

lemma router_clean:
  "clean_config_output ''show running-config\<newline>hostname R1\<newline>''
     (Single ''show running-config'') = ''hostname R1\<newline>''"
  by (simp add: clean_config_output_def lstrip_def isspace_def)

lemma router_path:
  "path_join ''backup'' ''core'' ''R1_10_0_0_1_20260101_0000.cfg''
   = ''backup/core/R1_10_0_0_1_20260101_0000.cfg''"
  "dirname ''backup/core/R1_10_0_0_1_20260101_0000.cfg'' = ''backup/core''"
  by (simp_all add: path_join_def path_join2_def dirname_def)

lemma router_save:
  assumes "now w = ''20260101_0000''" and "makedirs w = fs_ok" and "open_file w = fs_ok"
    and "write_file w = write_ok"
  shows "save_config w (Some ''show running-config\<newline>hostname R1\<newline>'')
      ''10.0.0.1'' ''R1'' ''core'' (Some (Single ''show running-config''))
   = (Inr True,
      [MakeDirs ''backup/core'',
       Create ''backup/core/R1_10_0_0_1_20260101_0000.cfg'',
       Write ''backup/core/R1_10_0_0_1_20260101_0000.cfg'' (Text ''hostname R1\<newline>''),
       Log (SaveSuccess ''10.0.0.1'' ''backup/core/R1_10_0_0_1_20260101_0000.cfg'')])"
  using assms
  by (simp add: save_config_def router_clean replace_dots_def router_path fs_ok_def write_ok_def
        Let_def)

lemma router_task:
  assumes "now w = ''20260101_0000''" and "makedirs w = fs_ok" and "open_file w = fs_ok"
    and "write_file w = write_ok" and "ssh_connect w = connect_ok" and "decode w = decode_ascii"
    and "creds cfg = example_creds"
  shows "backup_device w cfg router
   = Some (Inr True,
      [Log (UsingCommand ''cisco_ios'' (Single ''show running-config'')),
       Exec ''show running-config'',
       MakeDirs ''backup/core'',
       Create ''backup/core/R1_10_0_0_1_20260101_0000.cfg'',
       Write ''backup/core/R1_10_0_0_1_20260101_0000.cfg'' (Text ''hostname R1\<newline>''),
       Log (SaveSuccess ''10.0.0.1'' ''backup/core/R1_10_0_0_1_20260101_0000.cfg'')])"
proof -
  have nf: "platform router \<noteq> ''fortinet''" by (simp add: router_def)
  have c: "ssh_connect w (hostip router) (username (creds cfg)) (password (creds cfg))
           = Inr example_client"
    using assms(5) by (simp add: connect_ok_def)
  have g: "get_backup (decode w) (creds cfg) example_client (platform router)
           = Some (Some ''show running-config\<newline>hostname R1\<newline>'',
           [Log (UsingCommand ''cisco_ios'' (Single ''show running-config'')),
            Exec ''show running-config''])"
    using assms(6,7) router_capture by (simp add: router_def)
  have s: "save_config w (Some ''show running-config\<newline>hostname R1\<newline>'')
             (hostip router) (name router) (groups router) (Some (Single ''show running-config''))
           = (Inr True,
      [MakeDirs ''backup/core'',
       Create ''backup/core/R1_10_0_0_1_20260101_0000.cfg'',
       Write ''backup/core/R1_10_0_0_1_20260101_0000.cfg'' (Text ''hostname R1\<newline>''),
       Log (SaveSuccess ''10.0.0.1'' ''backup/core/R1_10_0_0_1_20260101_0000.cfg'')])"
    using router_save [OF assms(1-4)] by (simp add: router_def)
  have b: "backup_commands (platform router) = Some (Single ''show running-config'')"
    using backup_commands_cisco_ios by (simp add: router_def)
  show ?thesis
    by (simp add: backup_device_connected [OF nf c] g b s)
qed

lemma firewall_key: "py_or (api_key firewall) (default_api_key example_creds) = Some ''k''"
  by (simp add: py_or_def firewall_def)

lemma firewall_request:
  "api_url firewall = ''https://10.0.0.3:443/api/v2/monitor/system/config/backup?scope=global''"
  "api_auth ''k'' = ''Bearer k''"
  by (simp_all add: api_url_def api_auth_def firewall_def)

lemma firewall_path:
  "now w = ''20260101_0000'' \<Longrightarrow>
     conf_path w firewall = ''backup/edge/F1_10_0_0_3_20260101_0000.conf''"
  "dirname ''backup/edge/F1_10_0_0_3_20260101_0000.conf'' = ''backup/edge''"
  by (simp_all add: conf_path_def firewall_def replace_dots_def path_join_def path_join2_def
        dirname_def)

lemma example_world_fields:
  "now example_world = ''20260101_0000''" "makedirs example_world = fs_ok"
  "open_file example_world = fs_ok" "write_file example_world = write_ok"
  "ssh_connect example_world = connect_ok" "decode example_world = decode_ascii"
  "http_get example_world = get_ok"
  by (simp_all add: example_world_def)

subsection \<open>The API path\<close>

lemma fortinet_fs_failure:
  assumes "py_or (api_key d) (default_api_key cr) = Some k" and "k \<noteq> []"
    and "http_get w (api_url d) (api_auth k) = Inr resp" and "status_code resp = 200"
    and "makedirs w (dirname (conf_path w d)) \<noteq> None \<or> open_file w (conf_path w d) \<noteq> None
         \<or> write_file w (conf_path w d) (Bytes (content resp)) \<noteq> None"
  shows "fst (fortinet_api_backup w cr d) = False
         \<and> (\<forall>ev \<in> set (snd (fortinet_api_backup w cr d)). \<forall>p c. ev \<noteq> Write p c)"
  using assms(3-5) by (auto simp: fortinet_with_key [OF assms(1,2)] split: option.splits)

text \<open>
  Claim C7, as the program has it. For a device of the API platform with an API key:
  when the GET returns status 200 and the directory, the file and the write succeed,
  the bytes of the response body are written as they are to a file whose name ends in
  \<open>.conf\<close> and the task succeeds; with any other status, or when the GET raises, the
  task fails, logs the status and body or the exception, and touches no file; with
  status 200 and a file system call that raises, the task fails and nothing is written.
\<close>

theorem api_backup_outcomes:
  assumes "py_or (api_key d) (default_api_key cr) = Some k" and "k \<noteq> []"
  shows
    "(http_get w (api_url d) (api_auth k) = Inr resp \<and> status_code resp = 200
        \<and> makedirs w (dirname (conf_path w d)) = None \<and> open_file w (conf_path w d) = None
        \<and> write_file w (conf_path w d) (Bytes (content resp)) = None \<longrightarrow>
      fortinet_api_backup w cr d
      = (True, [HttpGet (api_url d) (api_auth k),
                MakeDirs (dirname (conf_path w d)),
                Create (conf_path w d),
                Write (conf_path w d) (Bytes (content resp)),
                Log (ApiSuccess (hostip d) (conf_path w d))]))
   \<and> (http_get w (api_url d) (api_auth k) = Inr resp \<and> status_code resp \<noteq> 200 \<longrightarrow>
      fortinet_api_backup w cr d
      = (False, [HttpGet (api_url d) (api_auth k),
                 Log (ApiFailed (hostip d) (status_code resp) (body_text resp))]))
   \<and> (http_get w (api_url d) (api_auth k) = Inl e \<longrightarrow>
      fortinet_api_backup w cr d
      = (False, [HttpGet (api_url d) (api_auth k), Log (ApiException (hostip d) e)]))
   \<and> (http_get w (api_url d) (api_auth k) = Inr resp \<and> status_code resp = 200
        \<and> (makedirs w (dirname (conf_path w d)) \<noteq> None \<or> open_file w (conf_path w d) \<noteq> None
           \<or> write_file w (conf_path w d) (Bytes (content resp)) \<noteq> None) \<longrightarrow>
      fst (fortinet_api_backup w cr d) = False
      \<and> (\<forall>ev \<in> set (snd (fortinet_api_backup w cr d)). \<forall>p c. ev \<noteq> Write p c))
   \<and> suffix ''.conf'' (conf_path w d)
   \<and> (platform d = ''fortinet'' \<and> creds cfg = cr \<longrightarrow>
        backup_device w cfg d
        = Some (Inr (fst (fortinet_api_backup w cr d)), snd (fortinet_api_backup w cr d)))"
proof (intro conjI impI)
  assume "http_get w (api_url d) (api_auth k) = Inr resp \<and> status_code resp = 200
        \<and> makedirs w (dirname (conf_path w d)) = None \<and> open_file w (conf_path w d) = None
        \<and> write_file w (conf_path w d) (Bytes (content resp)) = None"
  then show "fortinet_api_backup w cr d
      = (True, [HttpGet (api_url d) (api_auth k),
                MakeDirs (dirname (conf_path w d)),
                Create (conf_path w d),
                Write (conf_path w d) (Bytes (content resp)),
                Log (ApiSuccess (hostip d) (conf_path w d))])"
    by (simp add: fortinet_with_key [OF assms])
next
  assume "http_get w (api_url d) (api_auth k) = Inr resp \<and> status_code resp \<noteq> 200"
  then show "fortinet_api_backup w cr d
      = (False, [HttpGet (api_url d) (api_auth k),
                 Log (ApiFailed (hostip d) (status_code resp) (body_text resp))])"
    by (simp add: fortinet_with_key [OF assms])
next
  assume "http_get w (api_url d) (api_auth k) = Inl e"
  then show "fortinet_api_backup w cr d
      = (False, [HttpGet (api_url d) (api_auth k), Log (ApiException (hostip d) e)])"
    by (simp add: fortinet_with_key [OF assms])
next
  assume a: "http_get w (api_url d) (api_auth k) = Inr resp \<and> status_code resp = 200
        \<and> (makedirs w (dirname (conf_path w d)) \<noteq> None \<or> open_file w (conf_path w d) \<noteq> None
           \<or> write_file w (conf_path w d) (Bytes (content resp)) \<noteq> None)"
  with fortinet_fs_failure [OF assms, of w resp]
  show "fst (fortinet_api_backup w cr d) = False" by blast
  from a fortinet_fs_failure [OF assms, of w resp]
  show "\<forall>ev \<in> set (snd (fortinet_api_backup w cr d)). \<forall>p c. ev \<noteq> Write p c" by blast
next
  show "suffix ''.conf'' (conf_path w d)" by (rule conf_path_suffix)
next
  assume "platform d = ''fortinet'' \<and> creds cfg = cr"
  then show "backup_device w cfg d
        = Some (Inr (fst (fortinet_api_backup w cr d)), snd (fortinet_api_backup w cr d))"
    using backup_device_fortinet [of d w cfg] by auto
qed

theorem api_backup_outcomes_witness:
  "fortinet_api_backup example_world example_creds firewall
   = (True,
      [HttpGet ''https://10.0.0.3:443/api/v2/monitor/system/config/backup?scope=global''
         ''Bearer k'',
       MakeDirs ''backup/edge'',
       Create ''backup/edge/F1_10_0_0_3_20260101_0000.conf'',
       Write ''backup/edge/F1_10_0_0_3_20260101_0000.conf'' (Bytes ''config-bytes''),
       Log (ApiSuccess ''10.0.0.3'' ''backup/edge/F1_10_0_0_3_20260101_0000.conf'')])
   \<and> fortinet_api_backup forbidden_world example_creds firewall
     = (False,
        [HttpGet ''https://10.0.0.3:443/api/v2/monitor/system/config/backup?scope=global''
           ''Bearer k'',
         Log (ApiFailed ''10.0.0.3'' 403 ''no'')])
   \<and> fortinet_api_backup unreachable_world example_creds firewall
     = (False,
        [HttpGet ''https://10.0.0.3:443/api/v2/monitor/system/config/backup?scope=global''
           ''Bearer k'',
         Log (ApiException ''10.0.0.3'' (Error ''unreachable''))])
   \<and> fst (fortinet_api_backup read_only_world example_creds firewall) = False"
proof -
  note k = firewall_key
  have ne: "''k'' \<noteq> []" by simp
  have h: "hostip firewall = ''10.0.0.3''" by (simp add: firewall_def)
  have 1: "fortinet_api_backup example_world example_creds firewall
   = (True,
      [HttpGet ''https://10.0.0.3:443/api/v2/monitor/system/config/backup?scope=global''
         ''Bearer k'',
       MakeDirs ''backup/edge'',
       Create ''backup/edge/F1_10_0_0_3_20260101_0000.conf'',
       Write ''backup/edge/F1_10_0_0_3_20260101_0000.conf'' (Bytes ''config-bytes''),
       Log (ApiSuccess ''10.0.0.3'' ''backup/edge/F1_10_0_0_3_20260101_0000.conf'')])"
    using api_backup_outcomes [OF k ne, where w = example_world
            and resp = "\<lparr>status_code = 200, content = ''config-bytes'', body_text = ''config-bytes''\<rparr>"]
    by (simp add: example_world_fields firewall_request firewall_path h get_ok_def fs_ok_def
          write_ok_def)
  have 2: "fortinet_api_backup forbidden_world example_creds firewall
     = (False,
        [HttpGet ''https://10.0.0.3:443/api/v2/monitor/system/config/backup?scope=global''
           ''Bearer k'',
         Log (ApiFailed ''10.0.0.3'' 403 ''no'')])"
    using api_backup_outcomes [OF k ne, where w = forbidden_world
            and resp = "\<lparr>status_code = 403, content = ''no'', body_text = ''no''\<rparr>"]
    by (simp add: forbidden_world_def firewall_request h get_forbidden_def)
  have 3: "fortinet_api_backup unreachable_world example_creds firewall
     = (False,
        [HttpGet ''https://10.0.0.3:443/api/v2/monitor/system/config/backup?scope=global''
           ''Bearer k'',
         Log (ApiException ''10.0.0.3'' (Error ''unreachable''))])"
    using api_backup_outcomes [OF k ne, where w = unreachable_world
            and e = "Error ''unreachable''"]
    by (simp add: unreachable_world_def firewall_request h get_unreachable_def)
  have 4: "fst (fortinet_api_backup read_only_world example_creds firewall) = False"
    using api_backup_outcomes [OF k ne, where w = read_only_world
            and resp = "\<lparr>status_code = 200, content = ''config-bytes'', body_text = ''config-bytes''\<rparr>"]
    by (simp add: read_only_world_def example_world_fields firewall_request get_ok_def
          fs_denied_def)
  from 1 2 3 4 show ?thesis by blast
qed

text \<open>
  Status 200 and a file that cannot be opened: the task fails and no file holds the
  body, although the GET returned a success status.
\<close>

theorem api_backup_write_failure_counterexample:
  "http_get read_only_world (api_url firewall) (api_auth ''k'')
   = Inr \<lparr>status_code = 200, content = ''config-bytes'', body_text = ''config-bytes''\<rparr>
   \<and> fortinet_api_backup read_only_world example_creds firewall
     = (False,
        [HttpGet ''https://10.0.0.3:443/api/v2/monitor/system/config/backup?scope=global''
           ''Bearer k'',
         MakeDirs ''backup/edge'',
         Log (ApiException ''10.0.0.3'' (Error ''permission denied''))])"
proof -
  have n: "now read_only_world = ''20260101_0000''"
    and f: "http_get read_only_world = get_ok" "makedirs read_only_world = fs_ok"
      "open_file read_only_world = fs_denied"
    by (simp_all add: read_only_world_def example_world_fields)
  have h: "hostip firewall = ''10.0.0.3''" by (simp add: firewall_def)
  show ?thesis
    by (simp add: fortinet_with_key [OF firewall_key] firewall_request
          firewall_path(1) [OF n] firewall_path(2) f h get_ok_def fs_ok_def fs_denied_def)
qed


lemma example_creds_of [simp]:
  "creds example_inventory = example_creds" "creds h3c_inventory = example_creds"
  "creds mixed_inventory = example_creds"
  by (simp_all add: example_inventory_def h3c_inventory_def mixed_inventory_def)

lemma firewall_platform: "platform firewall = ''fortinet''"
  by (simp add: firewall_def)

lemma firewall_task_ok:
  assumes "creds cfg = example_creds"
  shows "backup_device example_world cfg firewall
   = Some (Inr True,
      [HttpGet ''https://10.0.0.3:443/api/v2/monitor/system/config/backup?scope=global''
         ''Bearer k'',
       MakeDirs ''backup/edge'',
       Create ''backup/edge/F1_10_0_0_3_20260101_0000.conf'',
       Write ''backup/edge/F1_10_0_0_3_20260101_0000.conf'' (Bytes ''config-bytes''),
       Log (ApiSuccess ''10.0.0.3'' ''backup/edge/F1_10_0_0_3_20260101_0000.conf'')])"
proof -
  have h: "hostip firewall = ''10.0.0.3''" by (simp add: firewall_def)
  have "fortinet_api_backup example_world example_creds firewall
   = (True,
      [HttpGet ''https://10.0.0.3:443/api/v2/monitor/system/config/backup?scope=global''
         ''Bearer k'',
       MakeDirs ''backup/edge'',
       Create ''backup/edge/F1_10_0_0_3_20260101_0000.conf'',
       Write ''backup/edge/F1_10_0_0_3_20260101_0000.conf'' (Bytes ''config-bytes''),
       Log (ApiSuccess ''10.0.0.3'' ''backup/edge/F1_10_0_0_3_20260101_0000.conf'')])"
    by (simp add: fortinet_with_key [OF firewall_key] firewall_request
          firewall_path(1) [OF example_world_fields(1)] firewall_path(2) example_world_fields h
          get_ok_def fs_ok_def write_ok_def)
  with assms show ?thesis by (simp add: backup_device_fortinet [OF firewall_platform])
qed

lemma firewall_task_failed:
  assumes "creds cfg = example_creds" and "http_get w = get_forbidden \<or> http_get w = get_unreachable"
  shows "\<exists>evs. backup_device w cfg firewall = Some (Inr False, evs)"
proof -
  have "fst (fortinet_api_backup w example_creds firewall) = False"
    using assms(2)
    by (auto simp: fortinet_with_key [OF firewall_key] get_forbidden_def get_unreachable_def)
  with assms(1) show ?thesis by (simp add: backup_device_fortinet [OF firewall_platform])
qed

lemma router_platform: "platform router \<noteq> ''fortinet''"
  by (simp add: router_def)

lemma router_task_refused:
  assumes "ssh_connect w = connect_refused"
  shows "backup_device w cfg router
         = Some (Inr False, [Log (ConnectFailed ''10.0.0.1'' (Error ''connection refused''))])"
proof -
  have "ssh_connect w (hostip router) (username (creds cfg)) (password (creds cfg))
        = Inl (Error ''connection refused'')"
    using assms by (simp add: connect_refused_def)
  from backup_device_connect_failed [OF router_platform this] show ?thesis
    by (simp add: router_def)
qed

lemma router_body_timed_out:
  "get_backup_body decode_ascii example_creds failing_client ''cisco_ios''
   = Some (Inl (Error ''timed out''),
           [Log (UsingCommand ''cisco_ios'' (Single ''show running-config'')),
            Exec ''show running-config''])"
  by (simp add: get_backup_body_def backup_commands_cisco_ios failing_client_def
        failing_stream_def)

lemma router_capture_mute:
  "get_backup decode_ascii example_creds mute_client ''cisco_ios''
   = Some (Some '''',
           [Log (UsingCommand ''cisco_ios'' (Single ''show running-config'')),
            Exec ''show running-config''])"
  by (simp add: get_backup_def get_backup_body_def backup_commands_cisco_ios mute_client_def
        empty_stream_def decode_ascii_def)

lemma unknown_platform: "backup_commands (platform unknown_device) = None"
  by (simp add: unknown_device_def backup_commands_def)

lemma unknown_task:
  "backup_device example_world cfg unknown_device
   = Some (Inr False, [Log (UnsupportedPlatform ''mikrotik'')])"
proof -
  have nf: "platform unknown_device \<noteq> ''fortinet''" by (simp add: unknown_device_def)
  have c: "ssh_connect example_world (hostip unknown_device) (username (creds cfg))
             (password (creds cfg)) = Inr example_client"
    by (simp add: example_world_fields connect_ok_def)
  from backup_device_falsy [OF nf c get_backup_unknown [OF unknown_platform]]
  show ?thesis by (simp add: unknown_device_def)
qed

lemma h3c_task_hangs:
  assumes "creds cfg = example_creds"
  shows "backup_device example_world cfg h3c_switch = None"
proof -
  have nf: "platform h3c_switch \<noteq> ''fortinet''" by (simp add: h3c_switch_def)
  have c: "ssh_connect example_world (hostip h3c_switch) (username (creds cfg))
             (password (creds cfg)) = Inr example_client"
    by (simp add: example_world_fields connect_ok_def)
  have g: "get_backup (decode example_world) (creds cfg) example_client (platform h3c_switch)
           = None"
    using h3c_capture_hangs assms by (simp add: example_world_fields h3c_switch_def)
  show ?thesis by (simp add: backup_device_connected [OF nf c] g)
qed

lemma summary_example: "summary example_world example_inventory = Some (Inr (2, 2))"
proof -
  have d: "devices example_inventory = [router, firewall]"
    by (simp add: example_inventory_def)
  have r: "backup_device example_world example_inventory router
   = Some (Inr True,
      [Log (UsingCommand ''cisco_ios'' (Single ''show running-config'')),
       Exec ''show running-config'',
       MakeDirs ''backup/core'',
       Create ''backup/core/R1_10_0_0_1_20260101_0000.cfg'',
       Write ''backup/core/R1_10_0_0_1_20260101_0000.cfg'' (Text ''hostname R1\<newline>''),
       Log (SaveSuccess ''10.0.0.1'' ''backup/core/R1_10_0_0_1_20260101_0000.cfg'')])"
    by (rule router_task) (simp_all add: example_world_fields)
  show ?thesis
    by (simp add: summary_def run_backup_def d r firewall_task_ok Let_def)
qed

subsection \<open>The summary, empty captures and unsupported platforms\<close>

lemma run_backup_logs_summary:
  assumes "run_backup w cfg = Some (Inr (s, t), trs)"
  shows "last trs = [Log (Summary s t)]"
  using assms
  by (auto simp: run_backup_def Let_def split: option.splits sum.splits)

text \<open>
  Claim C9. In every run that reaches its summary, the success count of the summary is
  the number of devices whose task returned true, the total is the number of devices,
  the success count is at most the total, and the summary line is the last record.
\<close>

theorem summary_counts_successes:
  assumes "run_backup w cfg = Some (Inr (s, t), trs)"
  shows "s = int (length (filter (\<lambda>d. task_result w cfg d = Some (Inr True)) (devices cfg)))
       \<and> t = int (length (devices cfg)) \<and> s \<le> t \<and> last trs = [Log (Summary s t)]"
  using run_backup_summary [OF assms] run_backup_logs_summary [OF assms] by simp

theorem summary_counts_successes_witness:
  "summary forbidden_world example_inventory = Some (Inr (1, 2))"
proof -
  have d: "devices example_inventory = [router, firewall]"
    by (simp add: example_inventory_def)
  have f: "now forbidden_world = ''20260101_0000''" "makedirs forbidden_world = fs_ok"
    "open_file forbidden_world = fs_ok" "write_file forbidden_world = write_ok"
    "ssh_connect forbidden_world = connect_ok" "decode forbidden_world = decode_ascii"
    "http_get forbidden_world = get_forbidden"
    by (simp_all add: forbidden_world_def example_world_fields)
  have r: "task_result forbidden_world example_inventory router = Some (Inr True)"
    using router_task [OF f(1-6), of example_inventory] by (simp add: task_result_def)
  obtain evs where fw: "backup_device forbidden_world example_inventory firewall
                        = Some (Inr False, evs)"
    using firewall_task_failed [of example_inventory forbidden_world] f(7) by auto
  then have fr: "task_result forbidden_world example_inventory firewall = Some (Inr False)"
    by (simp add: task_result_def)
  have "\<forall>d \<in> set (devices example_inventory).
          \<exists>b evs. backup_device forbidden_world example_inventory d = Some (Inr b, evs)"
    using router_task [OF f(1-6), of example_inventory] fw by (auto simp: d)
  from run_backup_completes [OF this] obtain s trs where
    run: "run_backup forbidden_world example_inventory
          = Some (Inr (s, int (length (devices example_inventory))),
                  trs @ [[Log (Summary s (int (length (devices example_inventory))))]])"
    by blast
  from summary_counts_successes [OF run] r fr have "s = 1" by (simp add: d)
  with run show ?thesis by (simp add: summary_def d)
qed

text \<open>
  A capture that is empty before the sanitizer runs, whether \<^verbatim>\<open>None\<close> or the empty
  string and whatever the commands for the sanitizer: \<^verbatim>\<open>save_config\<close> returns false
  and touches no file; and a device task with such a capture returns false before it
  calls \<^verbatim>\<open>save_config\<close>, with no effect on the file system.
\<close>

theorem empty_capture_not_saved:
  "save_config w None host nm grp commands = (Inr False, [])
   \<and> save_config w (Some '''') host nm grp commands = (Inr False, [])
   \<and> (platform d \<noteq> ''fortinet''
        \<and> ssh_connect w (hostip d) (username (creds cfg)) (password (creds cfg)) = Inr cl
        \<and> get_backup (decode w) (creds cfg) cl (platform d) = Some (config, evs)
        \<and> \<not> truthy config \<longrightarrow>
      backup_device w cfg d = Some (Inr False, evs) \<and> (\<forall>ev \<in> set evs. \<not> is_file_event ev))"
  using save_config_empty [of w host nm grp commands]
        backup_device_falsy [of d w cfg cl config evs]
        get_backup_no_file [of "decode w" "creds cfg" cl "platform d" config evs]
  by blast

theorem empty_capture_not_saved_witness:
  "get_backup (decode mute_world) (creds example_inventory) mute_client (platform router)
   = Some (Some '''',
           [Log (UsingCommand ''cisco_ios'' (Single ''show running-config'')),
            Exec ''show running-config''])
   \<and> backup_device mute_world example_inventory router
     = Some (Inr False,
             [Log (UsingCommand ''cisco_ios'' (Single ''show running-config'')),
              Exec ''show running-config''])"
proof -
  have c: "ssh_connect mute_world (hostip router) (username (creds example_inventory))
             (password (creds example_inventory)) = Inr mute_client"
    by (simp add: mute_world_def connect_mute_def)
  have g: "get_backup (decode mute_world) (creds example_inventory) mute_client (platform router)
           = Some (Some '''',
                   [Log (UsingCommand ''cisco_ios'' (Single ''show running-config'')),
                    Exec ''show running-config''])"
    using router_capture_mute by (simp add: mute_world_def example_world_fields router_def)
  have t: "\<not> truthy (Some '''')" by simp
  from empty_capture_not_saved
         [of mute_world "''''" "''''" "''''" None router example_inventory mute_client
             "Some ''''"
             "[Log (UsingCommand ''cisco_ios'' (Single ''show running-config'')),
               Exec ''show running-config'']"]
       router_platform c g t
  show ?thesis by simp
qed

text \<open>
  Claim C6. For a device whose platform has no entry in the registry, the lookup raises
  inside \<^verbatim>\<open>get_backup\<close>, which logs the unsupported platform and returns
  \<^verbatim>\<open>None\<close>; the task of the device returns false (after a failed connection, or
  after the failed lookup); and the batch goes on: its outcome is that of the batch
  without the device, with one more device in the total.
\<close>

theorem unsupported_platform_fails_task:
  assumes "backup_commands (platform d) = None"
  shows "get_backup dec cr cl (platform d) = Some (None, [Log (UnsupportedPlatform (platform d))])
       \<and> (backup_device w cfg d = Some (Inr False, [Log (UnsupportedPlatform (platform d))])
          \<or> (\<exists>e. backup_device w cfg d = Some (Inr False, [Log (ConnectFailed (hostip d) e)])))
       \<and> summary w (cfg\<lparr>devices := ds1 @ d # ds2\<rparr>)
         = map_option (map_sum id (\<lambda>(s, t). (s, t + 1)))
             (summary w (cfg\<lparr>devices := ds1 @ ds2\<rparr>))"
proof (intro conjI)
  show "get_backup dec cr cl (platform d) = Some (None, [Log (UnsupportedPlatform (platform d))])"
    using assms by (rule get_backup_unknown)
  show u: "backup_device w cfg d = Some (Inr False, [Log (UnsupportedPlatform (platform d))])
          \<or> (\<exists>e. backup_device w cfg d = Some (Inr False, [Log (ConnectFailed (hostip d) e)]))"
    using assms by (rule backup_device_unknown)
  then have "\<exists>evs. backup_device w cfg d = Some (Inr False, evs)" by blast
  then show "summary w (cfg\<lparr>devices := ds1 @ d # ds2\<rparr>)
         = map_option (map_sum id (\<lambda>(s, t). (s, t + 1)))
             (summary w (cfg\<lparr>devices := ds1 @ ds2\<rparr>))"
    by (rule summary_skip_failed)
qed

theorem unsupported_platform_fails_task_witness:
  "backup_commands (platform unknown_device) = None
   \<and> backup_device example_world example_inventory unknown_device
     = Some (Inr False, [Log (UnsupportedPlatform ''mikrotik'')])
   \<and> summary example_world mixed_inventory = Some (Inr (2, 3))"
proof -
  have m: "example_inventory\<lparr>devices := [router] @ unknown_device # [firewall]\<rparr> = mixed_inventory"
    "example_inventory\<lparr>devices := [router] @ [firewall]\<rparr> = example_inventory"
    by (simp_all add: example_inventory_def mixed_inventory_def)
  from unsupported_platform_fails_task
         [OF unknown_platform, of _ _ _ example_world example_inventory "[router]" "[firewall]"]
  have "summary example_world mixed_inventory
        = map_option (map_sum id (\<lambda>(s, t). (s, t + 1)))
            (summary example_world example_inventory)"
    by (simp only: m)
  then have "summary example_world mixed_inventory = Some (Inr (2, 3))"
    by (simp add: summary_example)
  with unknown_platform unknown_task [of example_inventory] show ?thesis by simp
qed


subsection \<open>Failures\<close>

lemma fortinet_no_file_on_failure:
  "\<not> fst (fortinet_api_backup w cr d) \<Longrightarrow>
     \<forall>ev \<in> set (snd (fortinet_api_backup w cr d)). \<forall>p c. ev \<noteq> Write p c"
  by (auto simp: fortinet_api_backup_def Let_def split: option.splits sum.splits if_splits)

lemma backup_device_file_event:
  assumes "backup_device w cfg d = Some (r, evs)" and "platform d \<noteq> ''fortinet''"
    and "\<exists>ev \<in> set evs. is_file_event ev"
  shows "\<exists>cl config evs0.
           ssh_connect w (hostip d) (username (creds cfg)) (password (creds cfg)) = Inr cl
         \<and> get_backup_body (decode w) (creds cfg) cl (platform d) = Some (Inr config, evs0)
         \<and> config \<noteq> []"
  using assms(1)
proof (cases rule: backup_device_cases)
  case api
  with assms(2) show ?thesis by simp
next
  case (refused e)
  with assms(3) show ?thesis by simp
next
  case (falsy cl config)
  from get_backup_no_file [OF falsy(3)] assms(3) show ?thesis by blast
next
  case (saving cl config evs2 cmds)
  from get_backup_known [OF saving(3)] obtain evs0 where
    "get_backup_body (decode w) (creds cfg) cl (platform d) = Some (Inr config, evs0)"
    by blast
  with saving(2,4) show ?thesis by blast
qed

lemma backup_device_capture_raised:
  assumes "platform d \<noteq> ''fortinet''"
    and "ssh_connect w (hostip d) (username (creds cfg)) (password (creds cfg)) = Inr cl"
    and "get_backup_body (decode w) (creds cfg) cl (platform d) = Some (Inl e, evs)"
  shows "\<exists>l. get_backup (decode w) (creds cfg) cl (platform d) = Some (None, evs @ [Log l])
             \<and> backup_device w cfg d = Some (Inr False, evs @ [Log l])"
proof -
  from get_backup_raised [OF assms(3)] obtain l where
    g: "get_backup (decode w) (creds cfg) cl (platform d) = Some (None, evs @ [Log l])"
    by blast
  have "\<not> truthy None" by simp
  from backup_device_falsy [OF assms(1,2) g this] g show ?thesis by blast
qed

lemma asa_reading_stops:
  assumes "\<forall>j. k \<le> j \<and> j < n \<longrightarrow> (\<exists>b. ch j = Data b)" and "k \<le> n" and "ch n = NotReady"
  shows "asa_reading dec ch k out
         = Some (Inr (out @ concat (map (\<lambda>j. chunk_text dec (ch j)) [k..<n])))"
  using assms(1,2)
proof (induction "n - k" arbitrary: k out)
  case 0
  then have "k = n" by simp
  with assms(3) show ?case by (subst asa_reading.simps) simp
next
  case (Suc m)
  then have kn: "k < n" by simp
  with Suc.prems(1) obtain b where b: "ch k = Data b" by blast
  have 1: "m = n - Suc k" using Suc.hyps(2) by simp
  have 2: "\<forall>j. Suc k \<le> j \<and> j < n \<longrightarrow> (\<exists>b. ch j = Data b)" using Suc.prems(1) by simp
  have 3: "Suc k \<le> n" using kn by simp
  have "asa_reading dec ch k out = asa_reading dec ch (Suc k) (out @ dec b)"
    using b by (subst asa_reading.simps) simp
  also have "\<dots> = Some (Inr ((out @ dec b)
                 @ concat (map (\<lambda>j. chunk_text dec (ch j)) [Suc k..<n])))"
    by (rule Suc.hyps(1) [OF 1 2 3])
  also have "(out @ dec b) @ concat (map (\<lambda>j. chunk_text dec (ch j)) [Suc k..<n])
             = out @ concat (map (\<lambda>j. chunk_text dec (ch j)) [k..<n])"
    using kn b by (simp add: upt_conv_Cons chunk_text_def)
  finally show ?case .
qed

lemma backup_commands_cisco_asa:
  "backup_commands ''cisco_asa'' = Some (Multi [''terminal pager 0'', ''show running-config''])"
  by (simp add: backup_commands_def)

lemma asa_capture:
  "get_backup decode_ascii example_creds asa_client ''cisco_asa''
   = Some (Some ''show running-config\<newline>hostname A\<newline>'',
           [Log (UsingCommand ''cisco_asa''
                  (Multi [''terminal pager 0'', ''show running-config''])),
            Send ''terminal pager 0\<newline>'', Send ''show running-config\<newline>''])"
proof -
  have "asa_reading decode_ascii asa_shell 0 ''''
        = Some (Inr ('''' @ concat (map (\<lambda>j. chunk_text decode_ascii (asa_shell j)) [0..<1])))"
    by (rule asa_reading_stops) (simp_all add: asa_shell_def)
  then have "asa_reading decode_ascii asa_shell 0 ''''
             = Some (Inr ''show running-config\<newline>hostname A\<newline>'')"
    by (simp add: chunk_text_def asa_shell_def decode_ascii_def)
  then show ?thesis
    by (simp add: get_backup_def get_backup_body_def backup_commands_cisco_asa asa_client_def)
qed

lemma asa_clean:
  "clean_config_output ''show running-config\<newline>hostname A\<newline>''
     (Multi [''terminal pager 0'', ''show running-config'']) = ''hostname A\<newline>''"
  by (simp add: clean_config_output_def lstrip_def isspace_def)

lemma asa_path:
  "path_join ''backup'' ''edge'' ''A1_10_0_0_5_20260101_0000.cfg''
   = ''backup/edge/A1_10_0_0_5_20260101_0000.cfg''"
  "dirname ''backup/edge/A1_10_0_0_5_20260101_0000.cfg'' = ''backup/edge''"
  by (simp_all add: path_join_def path_join2_def dirname_def)

lemma asa_task:
  "backup_device asa_world example_inventory asa_firewall
   = Some (Inr True,
           [Log (UsingCommand ''cisco_asa''
                  (Multi [''terminal pager 0'', ''show running-config''])),
            Send ''terminal pager 0\<newline>'', Send ''show running-config\<newline>'',
            MakeDirs ''backup/edge'',
            Create ''backup/edge/A1_10_0_0_5_20260101_0000.cfg'',
            Write ''backup/edge/A1_10_0_0_5_20260101_0000.cfg'' (Text ''hostname A\<newline>''),
            Log (SaveSuccess ''10.0.0.5'' ''backup/edge/A1_10_0_0_5_20260101_0000.cfg'')])"
proof -
  have f: "now asa_world = ''20260101_0000''" "makedirs asa_world = fs_ok"
    "open_file asa_world = fs_ok" "write_file asa_world = write_ok"
    "ssh_connect asa_world = connect_asa" "decode asa_world = decode_ascii"
    by (simp_all add: asa_world_def example_world_fields)
  have nf: "platform asa_firewall \<noteq> ''fortinet''" by (simp add: asa_firewall_def)
  have c: "ssh_connect asa_world (hostip asa_firewall) (username (creds example_inventory))
             (password (creds example_inventory)) = Inr asa_client"
    by (simp add: f connect_asa_def)
  have g: "get_backup (decode asa_world) example_creds asa_client (platform asa_firewall)
           = Some (Some ''show running-config\<newline>hostname A\<newline>'',
           [Log (UsingCommand ''cisco_asa''
                  (Multi [''terminal pager 0'', ''show running-config''])),
            Send ''terminal pager 0\<newline>'', Send ''show running-config\<newline>''])"
    using asa_capture by (simp add: f asa_firewall_def)
  have b: "backup_commands (platform asa_firewall)
           = Some (Multi [''terminal pager 0'', ''show running-config''])"
    using backup_commands_cisco_asa by (simp add: asa_firewall_def)
  have s: "save_config asa_world (Some ''show running-config\<newline>hostname A\<newline>'')
             (hostip asa_firewall) (name asa_firewall) (groups asa_firewall)
             (Some (Multi [''terminal pager 0'', ''show running-config'']))
           = (Inr True,
              [MakeDirs ''backup/edge'',
               Create ''backup/edge/A1_10_0_0_5_20260101_0000.cfg'',
               Write ''backup/edge/A1_10_0_0_5_20260101_0000.cfg'' (Text ''hostname A\<newline>''),
               Log (SaveSuccess ''10.0.0.5'' ''backup/edge/A1_10_0_0_5_20260101_0000.cfg'')])"
    by (simp add: save_config_def asa_clean replace_dots_def asa_path f fs_ok_def write_ok_def
          asa_firewall_def Let_def)
  show ?thesis
    by (simp add: backup_device_connected [OF nf c] g b s)
qed

text \<open>
  Claim C8, as the program has it. For a device served over SSH: when the connection
  fails, the task returns false with nothing but the log record; when the capture
  raises, whatever was captured so far is dropped, \<^verbatim>\<open>get_backup\<close> returns
  \<^verbatim>\<open>None\<close> and the task returns false without any effect on the file system; when a
  command of a command list raises, \<^verbatim>\<open>execute_commands\<close> returns the empty string
  instead of the output so far; and a task touches the file system only after a capture
  that returned, without raising, a text that is not empty. A capture that returned need
  not be complete: the ASA loop returns the chunks received before the first poll without
  data, whatever the shell delivers later.
\<close>

theorem failed_capture_not_saved:
  assumes "platform d \<noteq> ''fortinet''"
  shows
    "(ssh_connect w (hostip d) (username (creds cfg)) (password (creds cfg)) = Inl e \<longrightarrow>
        backup_device w cfg d = Some (Inr False, [Log (ConnectFailed (hostip d) e)]))
   \<and> (ssh_connect w (hostip d) (username (creds cfg)) (password (creds cfg)) = Inr cl
        \<and> get_backup_body (decode w) (creds cfg) cl (platform d) = Some (Inl e, evs) \<longrightarrow>
        (\<exists>l. get_backup (decode w) (creds cfg) cl (platform d) = Some (None, evs @ [Log l])
            \<and> backup_device w cfg d = Some (Inr False, evs @ [Log l]))
        \<and> (\<forall>ev \<in> set evs. \<not> is_file_event ev))
   \<and> ((\<exists>cmd \<in> set cmds. captured_text dec cl cmd = None) \<longrightarrow>
        fst (execute_commands dec cl cmds) = '''')
   \<and> (backup_device w cfg d = Some (r, evs') \<and> (\<exists>ev \<in> set evs'. is_file_event ev) \<longrightarrow>
        (\<exists>cl config evs0.
           ssh_connect w (hostip d) (username (creds cfg)) (password (creds cfg)) = Inr cl
         \<and> get_backup_body (decode w) (creds cfg) cl (platform d) = Some (Inr config, evs0)
         \<and> config \<noteq> []))
   \<and> ((\<forall>j. k \<le> j \<and> j < n \<longrightarrow> (\<exists>b. ch j = Data b)) \<and> k \<le> n \<and> ch n = NotReady \<longrightarrow>
        asa_reading dec ch k out
        = Some (Inr (out @ concat (map (\<lambda>j. chunk_text dec (ch j)) [k..<n]))))"
proof (intro conjI impI)
  assume "ssh_connect w (hostip d) (username (creds cfg)) (password (creds cfg)) = Inl e"
  with assms show "backup_device w cfg d = Some (Inr False, [Log (ConnectFailed (hostip d) e)])"
    by (rule backup_device_connect_failed)
next
  assume a: "ssh_connect w (hostip d) (username (creds cfg)) (password (creds cfg)) = Inr cl
        \<and> get_backup_body (decode w) (creds cfg) cl (platform d) = Some (Inl e, evs)"
  then show "\<exists>l. get_backup (decode w) (creds cfg) cl (platform d) = Some (None, evs @ [Log l])
            \<and> backup_device w cfg d = Some (Inr False, evs @ [Log l])"
    using backup_device_capture_raised [OF assms] by blast
  from a show "\<forall>ev \<in> set evs. \<not> is_file_event ev"
    using get_backup_body_no_file by blast
next
  assume "\<exists>cmd \<in> set cmds. captured_text dec cl cmd = None"
  then show "fst (execute_commands dec cl cmds) = ''''"
    unfolding execute_commands_def by (rule exec_loop_failed)
next
  assume "backup_device w cfg d = Some (r, evs') \<and> (\<exists>ev \<in> set evs'. is_file_event ev)"
  then show "\<exists>cl config evs0.
           ssh_connect w (hostip d) (username (creds cfg)) (password (creds cfg)) = Inr cl
         \<and> get_backup_body (decode w) (creds cfg) cl (platform d) = Some (Inr config, evs0)
         \<and> config \<noteq> []"
    using backup_device_file_event [OF _ assms] by blast
next
  assume "(\<forall>j. k \<le> j \<and> j < n \<longrightarrow> (\<exists>b. ch j = Data b)) \<and> k \<le> n \<and> ch n = NotReady"
  then show "asa_reading dec ch k out
        = Some (Inr (out @ concat (map (\<lambda>j. chunk_text dec (ch j)) [k..<n])))"
    using asa_reading_stops [of k n ch dec out] by blast
qed

theorem failed_capture_not_saved_witness:
  "backup_device refusing_world example_inventory router
   = Some (Inr False, [Log (ConnectFailed ''10.0.0.1'' (Error ''connection refused''))])
   \<and> backup_device timing_out_world example_inventory router
     = Some (Inr False,
             [Log (UsingCommand ''cisco_ios'' (Single ''show running-config'')),
              Exec ''show running-config'',
              Log (ExecutionFailed (Error ''timed out''))])
   \<and> fst (execute_commands decode_ascii failing_client [''show running-config'']) = ''''
   \<and> asa_reading decode_ascii asa_shell 0 ''''
     = Some (Inr ''show running-config\<newline>hostname A\<newline>'')
   \<and> (\<exists>config evs0.
        get_backup_body (decode example_world) (creds example_inventory) example_client
          (platform router) = Some (Inr config, evs0)
        \<and> config \<noteq> [])"
proof -
  have c1: "ssh_connect refusing_world (hostip router) (username (creds example_inventory))
              (password (creds example_inventory)) = Inl (Error ''connection refused'')"
    by (simp add: refusing_world_def connect_refused_def)
  from failed_capture_not_saved [OF router_platform, of refusing_world example_inventory] c1
  have 1: "backup_device refusing_world example_inventory router
           = Some (Inr False, [Log (ConnectFailed ''10.0.0.1'' (Error ''connection refused''))])"
    by (simp add: router_def)
  have c2: "ssh_connect timing_out_world (hostip router) (username (creds example_inventory))
              (password (creds example_inventory)) = Inr failing_client"
    by (simp add: timing_out_world_def connect_failing_client_def)
  have b2: "get_backup_body (decode timing_out_world) (creds example_inventory) failing_client
              (platform router)
            = Some (Inl (Error ''timed out''),
                    [Log (UsingCommand ''cisco_ios'' (Single ''show running-config'')),
                     Exec ''show running-config''])"
    using router_body_timed_out
    by (simp add: timing_out_world_def example_world_fields router_def)
  from failed_capture_not_saved
         [OF router_platform, of timing_out_world example_inventory "Error ''timed out''"
             failing_client
             "[Log (UsingCommand ''cisco_ios'' (Single ''show running-config'')),
               Exec ''show running-config'']"]
       c2 b2
  obtain l where l: "get_backup (decode timing_out_world) (creds example_inventory)
                       failing_client (platform router)
                     = Some (None, [Log (UsingCommand ''cisco_ios'' (Single ''show running-config'')),
                                    Exec ''show running-config''] @ [Log l])"
    "backup_device timing_out_world example_inventory router
     = Some (Inr False, [Log (UsingCommand ''cisco_ios'' (Single ''show running-config'')),
                         Exec ''show running-config''] @ [Log l])"
    by blast
  from l(1) b2 have "l = ExecutionFailed (Error ''timed out'')"
    by (simp add: get_backup_def)
  with l(2) have 2: "backup_device timing_out_world example_inventory router
     = Some (Inr False,
             [Log (UsingCommand ''cisco_ios'' (Single ''show running-config'')),
              Exec ''show running-config'',
              Log (ExecutionFailed (Error ''timed out''))])"
    by simp
  from failed_capture_not_saved
         [OF router_platform, where dec = decode_ascii and cl = failing_client
            and cmds = "[''show running-config'']"]
       failing_captured
  have 3: "fst (execute_commands decode_ascii failing_client [''show running-config'']) = ''''"
    by simp
  have a: "\<forall>j. 0 \<le> j \<and> j < 1 \<longrightarrow> (\<exists>b. asa_shell j = Data b)" "asa_shell 1 = NotReady"
    by (simp_all add: asa_shell_def)
  from failed_capture_not_saved
         [OF router_platform, where k = 0 and n = 1 and ch = asa_shell and dec = decode_ascii
            and out = "''''"]
       a
  have "asa_reading decode_ascii asa_shell 0 ''''
        = Some (Inr ('''' @ concat (map (\<lambda>j. chunk_text decode_ascii (asa_shell j)) [0..<1])))"
    by simp
  then have 4: "asa_reading decode_ascii asa_shell 0 ''''
                = Some (Inr ''show running-config\<newline>hostname A\<newline>'')"
    by (simp add: chunk_text_def asa_shell_def decode_ascii_def)
  have rt: "backup_device example_world example_inventory router
   = Some (Inr True,
      [Log (UsingCommand ''cisco_ios'' (Single ''show running-config'')),
       Exec ''show running-config'',
       MakeDirs ''backup/core'',
       Create ''backup/core/R1_10_0_0_1_20260101_0000.cfg'',
       Write ''backup/core/R1_10_0_0_1_20260101_0000.cfg'' (Text ''hostname R1\<newline>''),
       Log (SaveSuccess ''10.0.0.1'' ''backup/core/R1_10_0_0_1_20260101_0000.cfg'')])"
    by (rule router_task) (simp_all add: example_world_fields)
  have fe: "\<exists>ev \<in> set [Log (UsingCommand ''cisco_ios'' (Single ''show running-config'')),
       Exec ''show running-config'',
       MakeDirs ''backup/core'',
       Create ''backup/core/R1_10_0_0_1_20260101_0000.cfg'',
       Write ''backup/core/R1_10_0_0_1_20260101_0000.cfg'' (Text ''hostname R1\<newline>''),
       Log (SaveSuccess ''10.0.0.1'' ''backup/core/R1_10_0_0_1_20260101_0000.cfg'')].
         is_file_event ev"
    by simp
  have co: "ssh_connect example_world (hostip router) (username (creds example_inventory))
              (password (creds example_inventory)) = Inr example_client"
    by (simp add: example_world_fields connect_ok_def)
  from failed_capture_not_saved
         [OF router_platform, where w = example_world and cfg = example_inventory
            and r = "Inr True"
            and evs' = "[Log (UsingCommand ''cisco_ios'' (Single ''show running-config'')),
       Exec ''show running-config'',
       MakeDirs ''backup/core'',
       Create ''backup/core/R1_10_0_0_1_20260101_0000.cfg'',
       Write ''backup/core/R1_10_0_0_1_20260101_0000.cfg'' (Text ''hostname R1\<newline>''),
       Log (SaveSuccess ''10.0.0.1'' ''backup/core/R1_10_0_0_1_20260101_0000.cfg'')]"]
       rt fe
  obtain cl' config evs0 where
    x: "ssh_connect example_world (hostip router) (username (creds example_inventory))
          (password (creds example_inventory)) = Inr cl'"
       "get_backup_body (decode example_world) (creds example_inventory) cl' (platform router)
        = Some (Inr config, evs0)" "config \<noteq> []"
    by blast
  from x(1) co have "cl' = example_client" by simp
  with x(2,3) have 5: "\<exists>config evs0.
        get_backup_body (decode example_world) (creds example_inventory) example_client
          (platform router) = Some (Inr config, evs0)
        \<and> config \<noteq> []"
    by blast
  from 1 2 3 4 5 show ?thesis by blast
qed

text \<open>
  An ASA device whose shell pauses for one poll in the middle of the configuration: the
  part received before the pause is saved with success, and the rest is never read.
\<close>

theorem partial_asa_capture_saved:
  "asa_shell 2 = Data ''interface e0\<newline>''
   \<and> backup_device asa_world example_inventory asa_firewall
     = Some (Inr True,
           [Log (UsingCommand ''cisco_asa''
                  (Multi [''terminal pager 0'', ''show running-config''])),
            Send ''terminal pager 0\<newline>'', Send ''show running-config\<newline>'',
            MakeDirs ''backup/edge'',
            Create ''backup/edge/A1_10_0_0_5_20260101_0000.cfg'',
            Write ''backup/edge/A1_10_0_0_5_20260101_0000.cfg'' (Text ''hostname A\<newline>''),
            Log (SaveSuccess ''10.0.0.5'' ''backup/edge/A1_10_0_0_5_20260101_0000.cfg'')])"
  using asa_task by (simp add: asa_shell_def)


lemma is_send_not_error: "is_send ev \<Longrightarrow> \<not> is_error ev"
  by (cases ev) simp_all

lemma exec_loop_no_error:
  assumes "\<forall>ev \<in> set evs. \<not> is_error ev" and "fst (exec_loop dec cl cmds acc evs) \<noteq> []"
  shows "\<forall>ev \<in> set (snd (exec_loop dec cl cmds acc evs)). \<not> is_error ev"
  using assms
proof (induction cmds arbitrary: acc evs)
  case Nil
  then show ?case by simp
next
  case (Cons cmd rest)
  let ?evs1 = "evs @ [Log (SendingCommand cmd), Exec (cmd @ ''\<newline>'')]"
  from Cons.prems(1) have e1: "\<forall>ev \<in> set ?evs1. \<not> is_error ev" by simp
  show ?case
  proof (cases "exec_command cl (cmd @ ''\<newline>'')")
    case (Inl e)
    with Cons.prems(2) show ?thesis by simp
  next
    case (Inr out)
    show ?thesis
    proof (cases "read_chunks dec out acc")
      case (Inl e)
      with Inr Cons.prems(2) show ?thesis by simp
    next
      case r: (Inr acc')
      with Inr Cons.prems(2) have "fst (exec_loop dec cl rest acc' ?evs1) \<noteq> []" by simp
      from Cons.IH [OF e1 this] Inr r show ?thesis by simp
    qed
  qed
qed

lemma get_backup_returned:
  assumes "get_backup dec cr cl pf = Some (Some config, evs)"
  shows "get_backup_body dec cr cl pf = Some (Inr config, evs)"
  using assms
  by (cases "get_backup_body dec cr cl pf")
     (auto simp: get_backup_def split: sum.splits exn.splits)

lemma get_backup_body_no_error:
  assumes "get_backup_body dec cr cl pf = Some (Inr config, evs)" and "config \<noteq> []"
  shows "\<forall>ev \<in> set evs. \<not> is_error ev"
proof (cases "backup_commands pf")
  case None
  with assms show ?thesis by (auto simp: get_backup_body_def)
next
  case (Some command)
  consider (h3c) "pf \<in> set [''h3c'', ''h3c_core'']"
    | (wlc) "pf \<notin> set [''h3c'', ''h3c_core'']" "pf = ''cisco_wlc''"
    | (asa) "pf \<notin> set [''h3c'', ''h3c_core'']" "pf \<noteq> ''cisco_wlc''" "pf = ''cisco_asa''"
    | (dflt) "\<not> interactive_platform pf"
    by (auto simp: interactive_platform_def)
  then show ?thesis
  proof cases
    case h3c
    with Some assms show ?thesis
      by (cases "invoke_shell cl") (auto simp: get_backup_body_def)
  next
    case wlc
    show ?thesis
    proof (cases "invoke_shell cl")
      case (Inl e)
      with wlc Some assms show ?thesis by (auto simp: get_backup_body_def)
    next
      case (Inr ch)
      show ?thesis
      proof (cases "wlc_shell_login dec cr ch 0")
        case None
        with Inr wlc Some assms show ?thesis by (simp add: get_backup_body_def)
      next
        case l: (Some res)
        obtain lr sent where res: "res = (lr, sent)" by (cases res)
        from l res have sent: "\<forall>ev \<in> set sent. is_send ev"
          using wlc_shell_login_events by blast
        show ?thesis
        proof (cases lr)
          case (Inl e)
          with l res Inr wlc Some assms show ?thesis
            by (auto simp: get_backup_body_def)
        next
          case k: (Inr k)
          let ?e = "[Log (UsingCommand pf command)] @ sent
                    @ [Send ''config paging disable\<newline>'', Send ''show run-config\<newline>'']"
          from k l res Inr wlc Some assms
          have "wlc_reading dec ch k '''' ?e = Some (Inr config, evs)"
            by (simp add: get_backup_body_def)
          from wlc_reading_events [OF this] obtain s where
            "evs = ?e @ s" "\<forall>ev \<in> set s. is_send ev" by auto
          with sent show ?thesis by (auto dest: is_send_not_error)
        qed
      qed
    qed
  next
    case asa
    with Some assms show ?thesis
      by (cases "invoke_shell cl") (auto simp: get_backup_body_def)
  next
    case dflt
    show ?thesis
    proof (cases command)
      case (Single c)
      show ?thesis
      proof (cases "exec_command cl c")
        case (Inl e)
        with Single Some assms dflt show ?thesis
          by (auto simp: get_backup_body_def interactive_platform_def)
      next
        case (Inr out)
        with Single Some assms dflt show ?thesis
          by (cases "read_all out []")
             (auto simp: get_backup_body_def interactive_platform_def)
      qed
    next
      case (Multi cmds)
      obtain t evs' where ex: "execute_commands dec cl cmds = (t, evs')"
        by (cases "execute_commands dec cl cmds")
      with Multi Some assms dflt have te: "t = config" "evs = [Log (UsingCommand pf command)] @ evs'"
        by (auto simp: get_backup_body_def interactive_platform_def)
      have "\<forall>ev \<in> set (snd (exec_loop dec cl cmds '''' [])). \<not> is_error ev"
        by (rule exec_loop_no_error) (use ex te assms(2) in \<open>simp_all add: execute_commands_def\<close>)
      with ex have "\<forall>ev \<in> set evs'. \<not> is_error ev" by (simp add: execute_commands_def)
      with te show ?thesis by simp
    qed
  qed
qed

lemma save_config_true_no_error:
  "save_config w config host nm grp commands = (Inr True, evs) \<Longrightarrow>
     \<forall>ev \<in> set evs. \<not> is_error ev"
  by (auto simp: save_config_def Let_def split: option.splits if_splits)

lemma fortinet_true_no_error:
  "fortinet_api_backup w cr d = (True, evs) \<Longrightarrow> \<forall>ev \<in> set evs. \<not> is_error ev"
  by (auto simp: fortinet_api_backup_def Let_def split: option.splits sum.splits if_splits)

lemma backup_device_true_no_error:
  assumes "backup_device w cfg d = Some (Inr True, evs)"
  shows "\<forall>ev \<in> set evs. \<not> is_error ev"
  using assms
proof (cases rule: backup_device_cases)
  case api
  then have "fortinet_api_backup w (creds cfg) d = (True, evs)"
    by (metis prod.collapse sum.inject(2))
  then show ?thesis by (rule fortinet_true_no_error)
next
  case (saving cl config evs2 cmds)
  from get_backup_body_no_error [OF get_backup_returned [OF saving(3)] saving(4)]
  have 1: "\<forall>ev \<in> set evs2. \<not> is_error ev" .
  from saving have "save_config w (Some config) (hostip d) (name d) (groups d) (Some cmds)
             = (Inr True, snd (save_config w (Some config) (hostip d) (name d) (groups d) (Some cmds)))"
    by (metis prod.collapse)
  from save_config_true_no_error [OF this] 1 saving(7) show ?thesis by auto
qed simp_all

lemma backup_device_boolean:
  assumes "\<forall>p. makedirs w p = None" and "backup_device w cfg d = Some (r, evs)"
  shows "\<exists>b. r = Inr b"
proof (cases r)
  case (Inl e)
  with assms(2) backup_device_raises [of w cfg d e evs] assms(1) show ?thesis by auto
next
  case (Inr b)
  then show ?thesis by blast
qed

lemma failing_world_fields:
  "makedirs failing_world = fs_ok" "ssh_connect failing_world = connect_refused"
  "http_get failing_world = get_unreachable"
  by (simp_all add: failing_world_def example_world_fields)

lemma save_config_raises_at:
  assumes "save_config w config host nm grp commands = (Inl e, evs)"
  shows "makedirs w (dirname (path_join ''backup'' grp
           (nm @ ''_'' @ replace_dots host @ ''_'' @ now w @ ''.cfg''))) = Some e"
  using assms
  by (auto simp: save_config_def Let_def split: option.splits if_splits)

lemma backup_device_raises_at:
  assumes "backup_device w cfg d = Some (Inl e, evs)"
  shows "platform d \<noteq> ''fortinet'' \<and> makedirs w (dirname (cfg_path w d)) = Some e"
  using assms
proof (cases rule: backup_device_cases)
  case (saving cl config evs2 cmds)
  then have "save_config w (Some config) (hostip d) (name d) (groups d) (Some cmds)
             = (Inl e, snd (save_config w (Some config) (hostip d) (name d) (groups d) (Some cmds)))"
    by (metis prod.collapse)
  from save_config_raises_at [OF this] saving(1) show ?thesis by (simp add: cfg_path_def)
qed simp_all

lemma backup_device_result:
  assumes "platform d \<noteq> ''fortinet'' \<longrightarrow> makedirs w (dirname (cfg_path w d)) = None"
    and "backup_device w cfg d = Some (r, evs)"
  shows "\<exists>b. r = Inr b"
proof (cases r)
  case (Inl e)
  with assms(2) backup_device_raises_at [of w cfg d e evs] assms(1) show ?thesis by auto
next
  case (Inr b)
  then show ?thesis by blast
qed

lemma run_backup_blocked:
  assumes "\<exists>d \<in> set (devices cfg). backup_device w cfg d = None"
  shows "run_backup w cfg = None"
proof -
  from assms have "None \<in> set (map (backup_device w cfg) (devices cfg))" by force
  then have "await_all (map (backup_device w cfg) (devices cfg)) = None"
    by (simp add: await_all_None)
  then show ?thesis by (simp add: run_backup_def)
qed

lemma firewall_task_no_directory:
  "backup_device no_directory_world api_inventory firewall
   = Some (Inr False,
           [HttpGet ''https://10.0.0.3:443/api/v2/monitor/system/config/backup?scope=global''
              ''Bearer k'',
            Log (ApiException ''10.0.0.3'' (Error ''permission denied''))])"
proof -
  have f: "http_get no_directory_world = get_ok" "makedirs no_directory_world = fs_denied"
    by (simp_all add: no_directory_world_def example_world_fields)
  have h: "hostip firewall = ''10.0.0.3''" by (simp add: firewall_def)
  have "fortinet_api_backup no_directory_world example_creds firewall
        = (False,
           [HttpGet ''https://10.0.0.3:443/api/v2/monitor/system/config/backup?scope=global''
              ''Bearer k'',
            Log (ApiException ''10.0.0.3'' (Error ''permission denied''))])"
    by (simp add: fortinet_with_key [OF firewall_key] firewall_request f h get_ok_def
          fs_denied_def)
  then show ?thesis
    by (simp add: backup_device_fortinet [OF firewall_platform] api_inventory_def)
qed

text \<open>
  Claim C5, as the program has it. Take a device for which creating the directory in
  \<^verbatim>\<open>save_config\<close> does not raise (for a device of the API platform this is no
  condition: there the call is inside the \<^verbatim>\<open>try\<close> statement). If the task of the
  device returns, its result is a boolean, so no exception leaves the task, and the
  result is false whenever the task logged an error. A task returns true only with no
  error logged and the file written. If this holds for every device of the inventory and
  every task returns, the run completes and its last record is the summary with the
  success count and the number of devices. If the task of some device never returns, the
  run never completes.
\<close>

theorem errors_stay_in_tasks:
  "((platform d \<noteq> ''fortinet'' \<longrightarrow> makedirs w (dirname (cfg_path w d)) = None)
      \<and> backup_device w cfg d = Some (r, evs) \<longrightarrow>
      (\<exists>b. r = Inr b) \<and> ((\<exists>ev \<in> set evs. is_error ev) \<longrightarrow> r = Inr False))
   \<and> (backup_device w cfg d = Some (Inr True, evs) \<longrightarrow>
        (\<forall>ev \<in> set evs. \<not> is_error ev) \<and> (\<exists>p c. Write p c \<in> set evs))
   \<and> ((\<forall>d \<in> set (devices cfg).
          (platform d \<noteq> ''fortinet'' \<longrightarrow> makedirs w (dirname (cfg_path w d)) = None)
          \<and> backup_device w cfg d \<noteq> None) \<longrightarrow>
        (\<exists>s trs. run_backup w cfg
           = Some (Inr (s, int (length (devices cfg))),
                   trs @ [[Log (Summary s (int (length (devices cfg))))]])))
   \<and> ((\<exists>d \<in> set (devices cfg). backup_device w cfg d = None) \<longrightarrow> run_backup w cfg = None)"
proof (intro conjI impI)
  assume a: "(platform d \<noteq> ''fortinet'' \<longrightarrow> makedirs w (dirname (cfg_path w d)) = None)
      \<and> backup_device w cfg d = Some (r, evs)"
  then show b: "\<exists>b. r = Inr b" using backup_device_result by blast
  assume "\<exists>ev \<in> set evs. is_error ev"
  with a backup_device_true_no_error [of w cfg d evs] have "r \<noteq> Inr True" by blast
  with b show "r = Inr False" by auto
next
  assume t: "backup_device w cfg d = Some (Inr True, evs)"
  then show "\<exists>p c. Write p c \<in> set evs" by (rule backup_device_true_written)
  from t show "\<forall>ev \<in> set evs. \<not> is_error ev" by (rule backup_device_true_no_error)
next
  assume a: "\<forall>d \<in> set (devices cfg).
          (platform d \<noteq> ''fortinet'' \<longrightarrow> makedirs w (dirname (cfg_path w d)) = None)
          \<and> backup_device w cfg d \<noteq> None"
  have "\<forall>d \<in> set (devices cfg). \<exists>b evs. backup_device w cfg d = Some (Inr b, evs)"
  proof
    fix d assume d: "d \<in> set (devices cfg)"
    with a obtain r evs where x: "backup_device w cfg d = Some (r, evs)" by fastforce
    from a d have "platform d \<noteq> ''fortinet'' \<longrightarrow> makedirs w (dirname (cfg_path w d)) = None"
      by blast
    from backup_device_result [OF this x] obtain b where "r = Inr b" by blast
    with x show "\<exists>b evs. backup_device w cfg d = Some (Inr b, evs)" by blast
  qed
  then show "\<exists>s trs. run_backup w cfg
           = Some (Inr (s, int (length (devices cfg))),
                   trs @ [[Log (Summary s (int (length (devices cfg))))]])"
    by (rule run_backup_completes)
next
  assume "\<exists>d \<in> set (devices cfg). backup_device w cfg d = None"
  then show "run_backup w cfg = None" by (rule run_backup_blocked)
qed

theorem errors_stay_in_tasks_witness:
  "backup_device failing_world example_inventory router
   = Some (Inr False, [Log (ConnectFailed ''10.0.0.1'' (Error ''connection refused''))])
   \<and> summary failing_world example_inventory = Some (Inr (0, 2))
   \<and> backup_device no_directory_world api_inventory firewall
     = Some (Inr False,
           [HttpGet ''https://10.0.0.3:443/api/v2/monitor/system/config/backup?scope=global''
              ''Bearer k'',
            Log (ApiException ''10.0.0.3'' (Error ''permission denied''))])
   \<and> summary no_directory_world api_inventory = Some (Inr (0, 1))
   \<and> run_backup example_world h3c_inventory = None"
proof -
  have d: "devices example_inventory = [router, firewall]"
    by (simp add: example_inventory_def)
  have m: "makedirs failing_world (dirname (cfg_path failing_world router)) = None"
    by (simp add: failing_world_fields fs_ok_def)
  note r = router_task_refused [OF failing_world_fields(2), of example_inventory]
  obtain evs where f: "backup_device failing_world example_inventory firewall
                       = Some (Inr False, evs)"
    using firewall_task_failed [of example_inventory failing_world] failing_world_fields(3)
    by auto
  have t: "\<forall>d \<in> set (devices example_inventory).
             (platform d \<noteq> ''fortinet'' \<longrightarrow>
                makedirs failing_world (dirname (cfg_path failing_world d)) = None)
             \<and> backup_device failing_world example_inventory d \<noteq> None"
    using r f m by (simp add: d firewall_platform)
  from errors_stay_in_tasks [of _ failing_world example_inventory] t obtain s trs where
    run: "run_backup failing_world example_inventory
          = Some (Inr (s, int (length (devices example_inventory))),
                  trs @ [[Log (Summary s (int (length (devices example_inventory))))]])"
    by blast
  from run_backup_summary(1) [OF run] r f have "s = 0"
    by (simp add: d task_result_def)
  with run have 1: "summary failing_world example_inventory = Some (Inr (0, 2))"
    by (simp add: summary_def d)
  have da: "devices api_inventory = [firewall]" by (simp add: api_inventory_def)
  note fw = firewall_task_no_directory
  have ta: "\<forall>d \<in> set (devices api_inventory).
             (platform d \<noteq> ''fortinet'' \<longrightarrow>
                makedirs no_directory_world (dirname (cfg_path no_directory_world d)) = None)
             \<and> backup_device no_directory_world api_inventory d \<noteq> None"
    using fw by (simp add: da firewall_platform)
  from errors_stay_in_tasks [of _ no_directory_world api_inventory] ta obtain s' trs' where
    run': "run_backup no_directory_world api_inventory
          = Some (Inr (s', int (length (devices api_inventory))),
                  trs' @ [[Log (Summary s' (int (length (devices api_inventory))))]])"
    by blast
  from run_backup_summary(1) [OF run'] fw have "s' = 0"
    by (simp add: da task_result_def)
  with run' have 2: "summary no_directory_world api_inventory = Some (Inr (0, 1))"
    by (simp add: summary_def da)
  have "backup_device example_world h3c_inventory h3c_switch = None"
    by (rule h3c_task_hangs) simp
  then have "\<exists>d \<in> set (devices h3c_inventory). backup_device example_world h3c_inventory d = None"
    by (simp add: h3c_inventory_def)
  with errors_stay_in_tasks [of _ example_world h3c_inventory]
  have 3: "run_backup example_world h3c_inventory = None" by blast
  from r 1 fw 2 3 show ?thesis by simp
qed

text \<open>
  An inventory with a device of platform \<open>h3c\<close> whose shell stays silent: the task of
  that device never returns, and neither does the run, so no summary is written.
\<close>

theorem silent_device_blocks_summary:
  "run_backup example_world h3c_inventory = None"
proof -
  have "backup_device example_world h3c_inventory h3c_switch = None"
    by (rule h3c_task_hangs) simp
  then have "None \<in> set (map (backup_device example_world h3c_inventory) (devices h3c_inventory))"
    by (simp add: h3c_inventory_def)
  then have "await_all (map (backup_device example_world h3c_inventory) (devices h3c_inventory))
             = None"
    by (simp add: await_all_None)
  then show ?thesis by (simp add: run_backup_def)
qed

text \<open>
  Beside this, \<^verbatim>\<open>save_config\<close> creates the directory before its \<^verbatim>\<open>try\<close>
  statement, while the API path does so inside: an exception of that call leaves the
  task, and the run ends with it instead of the summary.
\<close>

lemma makedirs_error_leaves_run:
  "summary no_directory_world example_inventory = Some (Inl (Error ''permission denied''))"
proof -
  have d: "devices example_inventory = [router, firewall]"
    by (simp add: example_inventory_def)
  have f: "now no_directory_world = ''20260101_0000''" "makedirs no_directory_world = fs_denied"
    "ssh_connect no_directory_world = connect_ok" "decode no_directory_world = decode_ascii"
    "http_get no_directory_world = get_ok"
    by (simp_all add: no_directory_world_def example_world_fields)
  have c: "ssh_connect no_directory_world (hostip router) (username (creds example_inventory))
             (password (creds example_inventory)) = Inr example_client"
    by (simp add: f connect_ok_def)
  have g: "get_backup (decode no_directory_world) example_creds example_client
             (platform router)
           = Some (Some ''show running-config\<newline>hostname R1\<newline>'',
                   [Log (UsingCommand ''cisco_ios'' (Single ''show running-config'')),
                    Exec ''show running-config''])"
    using router_capture by (simp add: f router_def)
  have b: "backup_commands (platform router) = Some (Single ''show running-config'')"
    using backup_commands_cisco_ios by (simp add: router_def)
  have s: "save_config no_directory_world (Some ''show running-config\<newline>hostname R1\<newline>'')
             (hostip router) (name router) (groups router) (Some (Single ''show running-config''))
           = (Inl (Error ''permission denied''), [])"
    by (simp add: save_config_def f fs_denied_def Let_def)
  have r: "backup_device no_directory_world example_inventory router
           = Some (Inl (Error ''permission denied''),
                   [Log (UsingCommand ''cisco_ios'' (Single ''show running-config'')),
                    Exec ''show running-config''])"
    by (simp add: backup_device_connected [OF router_platform c] g b s)
  have "fst (fortinet_api_backup no_directory_world example_creds firewall) = False"
    by (auto simp: fortinet_with_key [OF firewall_key] f get_ok_def fs_denied_def)
  then obtain evs where fw: "backup_device no_directory_world example_inventory firewall
                             = Some (Inr False, evs)"
    by (simp add: backup_device_fortinet [OF firewall_platform])
  show ?thesis
    by (simp add: summary_def run_backup_def d r fw)
qed

text \<open>
  The guard of \<^verbatim>\<open>save_config\<close> tests the capture before the sanitizer runs: a capture
  that consists of the command echo only is not empty, and is written as an empty file.
\<close>

lemma echo_only_capture_saved_empty:
  "save_config example_world (Some ''show running-config'') ''10.0.0.1'' ''R1'' ''core''
     (Some (Single ''show running-config''))
   = (Inr True,
      [MakeDirs ''backup/core'',
       Create ''backup/core/R1_10_0_0_1_20260101_0000.cfg'',
       Write ''backup/core/R1_10_0_0_1_20260101_0000.cfg'' (Text ''''),
       Log (SaveSuccess ''10.0.0.1'' ''backup/core/R1_10_0_0_1_20260101_0000.cfg'')])"
proof -
  have c: "clean_config_output ''show running-config'' (Single ''show running-config'') = ''''"
    by (simp add: clean_config_output_def lstrip_def)
  show ?thesis
    by (simp add: save_config_def c replace_dots_def router_path fs_ok_def write_ok_def
          example_world_fields Let_def)
qed


lemma echo_capture:
  "get_backup decode_ascii example_creds echo_client ''cisco_ios''
   = Some (Some ''show running-config\<newline>'',
           [Log (UsingCommand ''cisco_ios'' (Single ''show running-config'')),
            Exec ''show running-config''])"
  by (simp add: get_backup_def get_backup_body_def backup_commands_cisco_ios
        echo_client_def echo_stream_def decode_ascii_def)

lemma echo_clean:
  "clean_config_output ''show running-config\<newline>'' (Single ''show running-config'') = ''''"
  by (simp add: clean_config_output_def lstrip_def isspace_def)

text \<open>
  Claim C10. The guard of \<^verbatim>\<open>save_config\<close> runs before the sanitizer and is not
  repeated after it. For a router that answers with the echo of the command and a line
  feed, the capture is not empty, the sanitizer leaves the empty text, and the task
  writes an empty file, logs the success and returns true: a text that is empty once
  sanitization is applied to it is persisted as a successful backup.
\<close>

theorem echo_capture_saved_as_empty_file:
  "get_backup (decode echo_world) (creds example_inventory) echo_client (platform router)
   = Some (Some ''show running-config\<newline>'',
           [Log (UsingCommand ''cisco_ios'' (Single ''show running-config'')),
            Exec ''show running-config''])
   \<and> clean_config_output ''show running-config\<newline>'' (Single ''show running-config'') = ''''
   \<and> backup_device echo_world example_inventory router
     = Some (Inr True,
             [Log (UsingCommand ''cisco_ios'' (Single ''show running-config'')),
              Exec ''show running-config'',
              MakeDirs ''backup/core'',
              Create ''backup/core/R1_10_0_0_1_20260101_0000.cfg'',
              Write ''backup/core/R1_10_0_0_1_20260101_0000.cfg'' (Text ''''),
              Log (SaveSuccess ''10.0.0.1'' ''backup/core/R1_10_0_0_1_20260101_0000.cfg'')])"
proof -
  have f: "now echo_world = ''20260101_0000''" "makedirs echo_world = fs_ok"
    "open_file echo_world = fs_ok" "write_file echo_world = write_ok"
    "ssh_connect echo_world = connect_echo" "decode echo_world = decode_ascii"
    by (simp_all add: echo_world_def example_world_fields)
  have c: "ssh_connect echo_world (hostip router) (username (creds example_inventory))
             (password (creds example_inventory)) = Inr echo_client"
    by (simp add: f connect_echo_def)
  have g: "get_backup (decode echo_world) example_creds echo_client (platform router)
           = Some (Some ''show running-config\<newline>'',
                   [Log (UsingCommand ''cisco_ios'' (Single ''show running-config'')),
                    Exec ''show running-config''])"
    using echo_capture by (simp add: f router_def)
  have b: "backup_commands (platform router) = Some (Single ''show running-config'')"
    using backup_commands_cisco_ios by (simp add: router_def)
  have s: "save_config echo_world (Some ''show running-config\<newline>'')
             (hostip router) (name router) (groups router) (Some (Single ''show running-config''))
           = (Inr True,
              [MakeDirs ''backup/core'',
               Create ''backup/core/R1_10_0_0_1_20260101_0000.cfg'',
               Write ''backup/core/R1_10_0_0_1_20260101_0000.cfg'' (Text ''''),
               Log (SaveSuccess ''10.0.0.1'' ''backup/core/R1_10_0_0_1_20260101_0000.cfg'')])"
    by (simp add: save_config_def echo_clean replace_dots_def router_path f fs_ok_def
          write_ok_def router_def Let_def)
  have t: "backup_device echo_world example_inventory router
     = Some (Inr True,
             [Log (UsingCommand ''cisco_ios'' (Single ''show running-config'')),
              Exec ''show running-config'',
              MakeDirs ''backup/core'',
              Create ''backup/core/R1_10_0_0_1_20260101_0000.cfg'',
              Write ''backup/core/R1_10_0_0_1_20260101_0000.cfg'' (Text ''''),
              Log (SaveSuccess ''10.0.0.1'' ''backup/core/R1_10_0_0_1_20260101_0000.cfg'')])"
    by (simp add: backup_device_connected [OF router_platform c] g b s)
  from g t echo_clean show ?thesis by simp
qed

end
